theory Spec2Isabelle
  imports Complex_Main "HOL-Library.Sublist"
begin

section \<open>Strings\<close>

text \<open>
  A string is the sequence of the bytes of its UTF-8 encoding.
  \<open>String.prototype.includes\<close>: the search string occurs as a contiguous run of the
  receiver (the empty search string always does).
\<close>

definition js_includes :: "string \<Rightarrow> string \<Rightarrow> bool" where
  "js_includes s searchString = sublist searchString s"

text \<open>
  The code points that \<open>String.prototype.trim\<close> strips, each as its UTF-8 bytes: the
  white space U+0009, U+000B, U+000C, U+0020, U+00A0, U+1680, U+2000 to U+200A, U+202F,
  U+205F, U+3000 and U+FEFF, and the line terminators U+000A, U+000D, U+2028 and U+2029.
\<close>

definition white_space :: "string list" where
  "white_space =
     [[CHR 0x09], [CHR 0x0A], [CHR 0x0B], [CHR 0x0C], [CHR 0x0D], [CHR 0x20],
      [CHR 0xC2, CHR 0xA0],
      [CHR 0xE1, CHR 0x9A, CHR 0x80],
      [CHR 0xE2, CHR 0x80, CHR 0x80], [CHR 0xE2, CHR 0x80, CHR 0x81],
      [CHR 0xE2, CHR 0x80, CHR 0x82], [CHR 0xE2, CHR 0x80, CHR 0x83],
      [CHR 0xE2, CHR 0x80, CHR 0x84], [CHR 0xE2, CHR 0x80, CHR 0x85],
      [CHR 0xE2, CHR 0x80, CHR 0x86], [CHR 0xE2, CHR 0x80, CHR 0x87],
      [CHR 0xE2, CHR 0x80, CHR 0x88], [CHR 0xE2, CHR 0x80, CHR 0x89],
      [CHR 0xE2, CHR 0x80, CHR 0x8A],
      [CHR 0xE2, CHR 0x80, CHR 0xA8], [CHR 0xE2, CHR 0x80, CHR 0xA9],
      [CHR 0xE2, CHR 0x80, CHR 0xAF],
      [CHR 0xE2, CHR 0x81, CHR 0x9F],
      [CHR 0xE3, CHR 0x80, CHR 0x80],
      [CHR 0xEF, CHR 0xBB, CHR 0xBF]]"

text \<open>Removes from the front of \<open>s\<close> every leading occurrence of a sequence of \<open>ws\<close>.\<close>

function strip_leading :: "string list \<Rightarrow> string \<Rightarrow> string" where
  "strip_leading ws s =
     (case find (\<lambda>w. w \<noteq> [] \<and> prefix w s) ws of
        None \<Rightarrow> s
      | Some w \<Rightarrow> strip_leading ws (drop (length w) s))"
  by pat_completeness auto
termination
proof (relation "measure (\<lambda>(ws, s). length s)")
  show "wf (measure (\<lambda>(ws, s). length s))" by simp
next
  fix ws :: "string list" and s w :: string
  assume "find (\<lambda>w. w \<noteq> [] \<and> prefix w s) ws = Some w"
  then have "w \<noteq> []" "prefix w s" by (auto simp: find_Some_iff)
  then have "s \<noteq> []" by auto
  with \<open>w \<noteq> []\<close> show "((ws, drop (length w) s), (ws, s)) \<in> measure (\<lambda>(ws, s). length s)"
    by simp
qed

declare strip_leading.simps [simp del]

text \<open>
  \<open>String.prototype.trim\<close>: strips white space and line terminators from both ends
  (the end is stripped as the front of the reversed string).
\<close>

definition trim :: "string \<Rightarrow> string" where
  "trim s = rev (strip_leading (map rev white_space) (rev (strip_leading white_space s)))"

text \<open>
  Truthiness of a value of type \<open>string | null | undefined\<close>: \<open>None\<close> stands for null
  and for an absent field, and the empty string is falsy.
\<close>

definition truthy :: "string option \<Rightarrow> bool" where
  "truthy s = (case s of None \<Rightarrow> False | Some t \<Rightarrow> t \<noteq> [])"

section \<open>Target format\<close>

text \<open>
  \<open>OpenAIToolCall\<close> and \<open>OpenAIMessage\<close>. An optional field is an \<open>option\<close>; \<open>None\<close> is
  the absent field (and null for \<open>content\<close>). An array is always truthy, so
  \<open>message.tool_calls\<close> is truthy exactly when the field is \<open>Some\<close>.
\<close>

record FunctionDef =
  fn_name :: string
  fn_arguments :: string

record OpenAIToolCall =
  call_id :: string
  call_type :: string
  function_def :: FunctionDef

record OpenAIMessage =
  role :: string
  content :: "string option"
  tool_calls :: "OpenAIToolCall list option"
  tool_call_id :: "string option"

section \<open>Tool-call consistency validator\<close>

text \<open>
  \<open>validateOpenAIToolCalls\<close>. The \<open>while\<close> loop that collects the tool messages right
  after position \<open>i\<close>:
\<close>

definition immediateToolMessages :: "OpenAIMessage list \<Rightarrow> nat \<Rightarrow> OpenAIMessage list" where
  "immediateToolMessages messages i =
     takeWhile (\<lambda>m. role m = ''tool'') (drop (Suc i) messages)"

text \<open>
  The \<open>Map\<close> from \<open>tool_call_id\<close> to tool message, filled in order (a later message
  with the same id overwrites); a message whose \<open>tool_call_id\<close> is falsy is skipped.
\<close>

definition toolMessageMap :: "OpenAIMessage list \<Rightarrow> (string \<rightharpoonup> OpenAIMessage)" where
  "toolMessageMap toolMsgs =
     foldl (\<lambda>mp toolMsg.
              (case tool_call_id toolMsg of
                 Some k \<Rightarrow> if k \<noteq> [] then mp(k \<mapsto> toolMsg) else mp
               | None \<Rightarrow> mp))
           Map.empty toolMsgs"

definition map_has :: "('k \<rightharpoonup> 'v) \<Rightarrow> 'k \<Rightarrow> bool" where
  "map_has mp k = (mp k \<noteq> None)"

text \<open>
  \<open>currentMessage.tool_call_id ? toolCallIds.has(currentMessage.tool_call_id) : false\<close>,
  where \<open>toolCallIds\<close> is the set of the ids of \<open>calls\<close>.
\<close>

definition toolCallIds_has :: "OpenAIToolCall list \<Rightarrow> string option \<Rightarrow> bool" where
  "toolCallIds_has calls tcid =
     (case tcid of
        Some k \<Rightarrow> if k \<noteq> [] then k \<in> set (map call_id calls) else False
      | None \<Rightarrow> False)"

text \<open>
  The branch for an assistant message with \<open>tool_calls\<close>: keep the calls that have a
  tool message among \<open>immediate\<close>, delete the field when none is left, and push the
  message only if it has content or calls.
\<close>

definition updateAssistant ::
  "OpenAIMessage list \<Rightarrow> OpenAIMessage \<Rightarrow> OpenAIToolCall list \<Rightarrow> OpenAIMessage list" where
  "updateAssistant immediate currentMessage calls =
     (let mp = toolMessageMap immediate;
          validToolCalls = filter (\<lambda>toolCall. map_has mp (call_id toolCall)) calls;
          updated = (if validToolCalls \<noteq> []
                     then currentMessage\<lparr>tool_calls := Some validToolCalls\<rparr>
                     else currentMessage\<lparr>tool_calls := None\<rparr>)
      in if truthy (content updated) \<or> tool_calls updated \<noteq> None then [updated] else [])"

text \<open>
  The loop \<open>for (let k = i - 1; k >= 0; k--)\<close>; the argument is \<open>k + 1\<close>, so that the
  loop ends at \<open>0\<close>.
\<close>

fun walk_back :: "OpenAIMessage list \<Rightarrow> OpenAIMessage \<Rightarrow> nat \<Rightarrow> bool" where
  "walk_back messages currentMessage 0 = False"
| "walk_back messages currentMessage (Suc k) =
     (let candidate = messages ! k in
        if role candidate = ''tool'' then walk_back messages currentMessage k
        else (case (role candidate = ''assistant'', tool_calls candidate) of
                (True, Some calls) \<Rightarrow> toolCallIds_has calls (tool_call_id currentMessage)
              | _ \<Rightarrow> False))"

definition hasImmediateToolCall :: "OpenAIMessage list \<Rightarrow> nat \<Rightarrow> OpenAIMessage \<Rightarrow> bool" where
  "hasImmediateToolCall messages i currentMessage =
     (if i > 0 then
        (let prevMessage = messages ! (i - 1) in
           (case (role prevMessage = ''assistant'', tool_calls prevMessage) of
              (True, Some calls) \<Rightarrow> toolCallIds_has calls (tool_call_id currentMessage)
            | _ \<Rightarrow> if role prevMessage = ''tool''
                   then walk_back messages currentMessage i else False))
      else False)"

text \<open>One round of the outer loop: what position \<open>i\<close> pushes to \<open>validatedMessages\<close>.\<close>

definition validate_step :: "OpenAIMessage list \<Rightarrow> nat \<Rightarrow> OpenAIMessage list" where
  "validate_step messages i =
     (let currentMessage = messages ! i in
        (case (role currentMessage = ''assistant'', tool_calls currentMessage) of
           (True, Some calls) \<Rightarrow>
              updateAssistant (immediateToolMessages messages i) currentMessage calls
         | _ \<Rightarrow> if role currentMessage = ''tool''
                then (if hasImmediateToolCall messages i currentMessage
                      then [currentMessage] else [])
                else [currentMessage]))"

definition validateOpenAIToolCalls :: "OpenAIMessage list \<Rightarrow> OpenAIMessage list" where
  "validateOpenAIToolCalls messages =
     concat (map (validate_step messages) [0..<length messages])"

section \<open>Model aliasing\<close>

text \<open>
  \<open>MODEL_MAPPING\<close>, in the order \<open>Object.entries\<close> enumerates its keys (insertion
  order, as none of the keys is an integer index).
\<close>

definition MODEL_MAPPING :: "(string \<times> string) list" where
  "MODEL_MAPPING =
     [(''haiku'', ''z-ai/glm-4.5-air:free''),
      (''sonnet'', ''z-ai/glm-4.6:exacto''),
      (''opus'', ''tngtech/deepseek-r1t2-chimera:free'')]"

text \<open>The \<open>for (const [keyword, openRouterModel] of ...)\<close> loop of \<open>mapModel\<close>.\<close>

fun mapModel_loop :: "string \<Rightarrow> (string \<times> string) list \<Rightarrow> string" where
  "mapModel_loop anthropicModel [] = anthropicModel"
| "mapModel_loop anthropicModel ((keyword, openRouterModel) # entries) =
     (if js_includes anthropicModel keyword then openRouterModel
      else mapModel_loop anthropicModel entries)"

definition mapModel :: "string \<Rightarrow> string" where
  "mapModel anthropicModel =
     (if js_includes anthropicModel ''/'' then anthropicModel
      else mapModel_loop anthropicModel MODEL_MAPPING)"

section \<open>JSON values\<close>

text \<open>
  A decoded JSON value, for the places where the code handles a value of type \<open>any\<close>
  (the \<open>provider\<close> field of a request, a parsed header) and for the provider presets,
  which are plain object literals.
\<close>

datatype json =
    JNull
  | JBool bool
  | JNumber real
  | JString string
  | JArray "json list"
  | JObject "(string \<times> json) list"

text \<open>Truthiness of a JSON value, and \<open>typeof v === "object"\<close> (true of null and arrays).\<close>

definition truthy_json :: "json \<Rightarrow> bool" where
  "truthy_json v =
     (case v of
        JNull \<Rightarrow> False
      | JBool b \<Rightarrow> b
      | JNumber n \<Rightarrow> n \<noteq> 0
      | JString s \<Rightarrow> s \<noteq> []
      | JArray xs \<Rightarrow> True
      | JObject entries \<Rightarrow> True)"

definition typeof_object :: "json \<Rightarrow> bool" where
  "typeof_object v =
     (case v of JNull \<Rightarrow> True | JArray xs \<Rightarrow> True | JObject entries \<Rightarrow> True | _ \<Rightarrow> False)"

section \<open>Property access on an object literal\<close>

text \<open>
  The names of the properties that every plain object inherits from
  \<open>Object.prototype\<close>.
\<close>

definition Object_prototype_names :: "string list" where
  "Object_prototype_names =
     [''constructor'', ''__defineGetter__'', ''__defineSetter__'', ''hasOwnProperty'',
      ''__lookupGetter__'', ''__lookupSetter__'', ''isPrototypeOf'', ''propertyIsEnumerable'',
      ''toString'', ''valueOf'', ''__proto__'', ''toLocaleString'']"

text \<open>
  What a property access can return: a JSON value, or \<open>Inherited name\<close>, the value of
  the inherited property \<open>name\<close> (a function, and for \<open>__proto__\<close> the object
  \<open>Object.prototype\<close>). An inherited value is truthy and is no JSON value.
\<close>

datatype js_value = Json json | Inherited string

text \<open>
  \<open>table[key]\<close> on an object literal whose own properties are \<open>own\<close>: an own
  property first, then an inherited one; \<open>None\<close> is \<open>undefined\<close>.
\<close>

definition get_property :: "(string \<rightharpoonup> json) \<Rightarrow> string \<Rightarrow> js_value option" where
  "get_property own key =
     (case own key of
        Some v \<Rightarrow> Some (Json v)
      | None \<Rightarrow> if key \<in> set Object_prototype_names then Some (Inherited key) else None)"

text \<open>Truthiness of the result of a property access (\<open>undefined\<close> is falsy).\<close>

definition truthy_property :: "js_value option \<Rightarrow> bool" where
  "truthy_property found =
     (case found of
        None \<Rightarrow> False
      | Some (Json v) \<Rightarrow> truthy_json v
      | Some (Inherited name) \<Rightarrow> True)"

section \<open>Source format\<close>

text \<open>
  The request types as the TypeScript interfaces declare them. \<open>'j\<close> is the type of a
  structured value (\<open>Record<string, unknown>\<close>): a tool input, a tool result object, an
  input schema. A content part is the tagged union \<open>AnthropicContentPart\<close>;
  \<open>OtherPart tag\<close> is a part whose \<open>type\<close> is none of the three tags, which the
  validator rejects at run time. An absent optional field is \<open>None\<close>.
\<close>

datatype 'j ToolResultContent = ResultString string | ResultObject 'j

datatype 'j AnthropicContentPart =
    TextPart string
  | ToolUsePart string string 'j
  | ToolResultPart string "'j ToolResultContent"
  | OtherPart string

datatype 'j AnthropicContent =
    StringContent string
  | PartsContent "'j AnthropicContentPart list"

record 'j AnthropicMessage =
  msg_role :: string
  msg_content :: "'j AnthropicContent"

record SystemSegment =
  segment_text :: string

datatype SystemPrompt = SystemString string | SystemSegments "SystemSegment list"

record 'j ToolSchema =
  tool_name :: string
  tool_description :: string
  input_schema :: 'j

record 'j MessageCreateParamsBase =
  model :: string
  messages :: "'j AnthropicMessage list"
  system :: "SystemPrompt option"
  temperature :: "real option"
  tools :: "'j ToolSchema list option"
  stream :: "bool option"

section \<open>Returned payload\<close>

datatype CacheControl = Ephemeral

record SystemContentPart =
  part_type :: string
  part_text :: string
  cache_control :: "CacheControl option"

record SystemMessage =
  system_role :: string
  system_content :: "SystemContentPart list"

text \<open>
  The \<open>messages\<close> array of the payload holds system messages (content: an array of
  parts) and chat messages.
\<close>

datatype PayloadMessage = SystemMsg SystemMessage | ChatMsg OpenAIMessage

record 'j FunctionDeclaration =
  decl_name :: string
  decl_description :: string
  decl_parameters :: 'j

record 'j FunctionTool =
  tool_type :: string
  tool_function :: "'j FunctionDeclaration"

record 'j Payload =
  data_model :: string
  data_messages :: "PayloadMessage list"
  data_temperature :: "real option"
  data_stream :: "bool option"
  data_provider :: "js_value option"
  data_tools :: "'j FunctionTool list option"

section \<open>Errors\<close>

text \<open>
  Every \<open>throw new Error(...)\<close> of the translator, one constructor per message. The
  number is the index the message text carries. \<open>FailedToStringify\<close> is the error of
  \<open>safeJsonStringify\<close>; all the others report a malformed request.
\<close>

datatype message_error =
    MustHaveRole
  | MustHaveContent
  | PartMustHaveType nat
  | ToolUseMustHaveId nat
  | ToolUseMustHaveName nat
  | ToolResultMustHaveToolUseId nat
  | ToolResultMustHaveContent nat
  | UnknownContentPartType string

datatype error =
    ModelRequired
  | InvalidMessage nat message_error
  | FailedToStringify string

text \<open>
  \<open>safeJsonStringify\<close>. \<open>JSON.stringify\<close> is the parameter \<open>stringify\<close>; \<open>None\<close> is
  its exception.
\<close>

definition safeJsonStringify :: "('j \<Rightarrow> string option) \<Rightarrow> 'j \<Rightarrow> string \<Rightarrow> error + string" where
  "safeJsonStringify stringify data context =
     (case stringify data of
        Some s \<Rightarrow> Inr s
      | None \<Rightarrow> Inl (FailedToStringify context))"

section \<open>Validation of a source message\<close>

text \<open>
  \<open>validateAnthropicMessage\<close>; \<open>None\<close> is the normal return. The tests are the
  falsiness tests of the source: on a string, \<open>!x\<close> holds exactly of the empty string.
  Tests that the declared types decide (\<open>typeof part.text !== "string"\<close>, \<open>!part.input\<close>
  on an object) have no branch here.
\<close>

definition validate_part :: "nat \<Rightarrow> 'j AnthropicContentPart \<Rightarrow> message_error option" where
  "validate_part index part =
     (case part of
        TextPart text \<Rightarrow> None
      | ToolUsePart ident name input \<Rightarrow>
          if ident = [] then Some (ToolUseMustHaveId index)
          else if name = [] then Some (ToolUseMustHaveName index)
          else None
      | ToolResultPart tool_use_id c \<Rightarrow>
          if tool_use_id = [] then Some (ToolResultMustHaveToolUseId index)
          else if c = ResultString [] then Some (ToolResultMustHaveContent index)
          else None
      | OtherPart tag \<Rightarrow>
          if tag = [] then Some (PartMustHaveType index)
          else Some (UnknownContentPartType tag))"

fun validate_parts :: "nat \<Rightarrow> 'j AnthropicContentPart list \<Rightarrow> message_error option" where
  "validate_parts index [] = None"
| "validate_parts index (part # parts) =
     (case validate_part index part of
        Some e \<Rightarrow> Some e
      | None \<Rightarrow> validate_parts (Suc index) parts)"

definition validateAnthropicMessage :: "'j AnthropicMessage \<Rightarrow> message_error option" where
  "validateAnthropicMessage message =
     (if msg_role message = [] then Some MustHaveRole
      else (case msg_content message of
              StringContent s \<Rightarrow> if s = [] then Some MustHaveContent else None
            | PartsContent parts \<Rightarrow> validate_parts 0 parts))"

text \<open>The \<open>messages.forEach\<close> that validates every message and wraps the first error.\<close>

fun validate_messages :: "nat \<Rightarrow> 'j AnthropicMessage list \<Rightarrow> error option" where
  "validate_messages index [] = None"
| "validate_messages index (message # rest) =
     (case validateAnthropicMessage message of
        Some e \<Rightarrow> Some (InvalidMessage index e)
      | None \<Rightarrow> validate_messages (Suc index) rest)"

section \<open>Expansion of a source message\<close>

text \<open>
  The \<open>forEach\<close> over the parts of an assistant message, with its two accumulators
  \<open>textContent\<close> and \<open>toolCalls\<close>.
\<close>

fun assistant_parts ::
  "('j \<Rightarrow> string option) \<Rightarrow> 'j AnthropicContentPart list \<Rightarrow> string \<Rightarrow> OpenAIToolCall list \<Rightarrow>
     error + (string \<times> OpenAIToolCall list)" where
  "assistant_parts stringify [] textContent toolCalls = Inr (textContent, toolCalls)"
| "assistant_parts stringify (contentPart # parts) textContent toolCalls =
     (case contentPart of
        TextPart text \<Rightarrow>
          assistant_parts stringify parts (textContent @ text @ [CHR 0x0A]) toolCalls
      | ToolUsePart ident name input \<Rightarrow>
          (case safeJsonStringify stringify input (''tool arguments for '' @ name) of
             Inl e \<Rightarrow> Inl e
           | Inr arguments \<Rightarrow>
               assistant_parts stringify parts textContent
                 (toolCalls @ [\<lparr>call_id = ident, call_type = ''function'',
                    function_def = \<lparr>fn_name = name, fn_arguments = arguments\<rparr>\<rparr>]))
      | _ \<Rightarrow> assistant_parts stringify parts textContent toolCalls)"

text \<open>The \<open>forEach\<close> over the parts of a user message.\<close>

fun user_parts ::
  "('j \<Rightarrow> string option) \<Rightarrow> 'j AnthropicContentPart list \<Rightarrow> string \<Rightarrow> OpenAIMessage list \<Rightarrow>
     error + (string \<times> OpenAIMessage list)" where
  "user_parts stringify [] userTextMessageContent subsequentToolMessages =
     Inr (userTextMessageContent, subsequentToolMessages)"
| "user_parts stringify (contentPart # parts) userTextMessageContent subsequentToolMessages =
     (case contentPart of
        TextPart text \<Rightarrow>
          user_parts stringify parts (userTextMessageContent @ text @ [CHR 0x0A])
            subsequentToolMessages
      | ToolResultPart tool_use_id c \<Rightarrow>
          (case (case c of
                   ResultString s \<Rightarrow> Inr s
                 | ResultObject obj \<Rightarrow> safeJsonStringify stringify obj ''tool result content'') of
             Inl e \<Rightarrow> Inl e
           | Inr s \<Rightarrow>
               user_parts stringify parts userTextMessageContent
                 (subsequentToolMessages @
                    [\<lparr>role = ''tool'', content = Some s, tool_calls = None,
                      tool_call_id = Some tool_use_id\<rparr>]))
      | _ \<Rightarrow> user_parts stringify parts userTextMessageContent subsequentToolMessages)"

text \<open>The body of the \<open>flatMap\<close>: the target messages of one source message.\<close>

definition expand_message ::
  "('j \<Rightarrow> string option) \<Rightarrow> 'j AnthropicMessage \<Rightarrow> error + OpenAIMessage list" where
  "expand_message stringify anthropicMessage =
     (case msg_content anthropicMessage of
        StringContent s \<Rightarrow>
          Inr [\<lparr>role = msg_role anthropicMessage, content = Some s, tool_calls = None,
                tool_call_id = None\<rparr>]
      | PartsContent parts \<Rightarrow>
          if msg_role anthropicMessage = ''assistant'' then
            (case assistant_parts stringify parts [] [] of
               Inl e \<Rightarrow> Inl e
             | Inr (textContent, toolCalls) \<Rightarrow>
                 (let trimmedTextContent = trim textContent;
                      assistantMessage =
                        \<lparr>role = ''assistant'',
                         content = (if length trimmedTextContent > 0
                                    then Some trimmedTextContent else None),
                         tool_calls = (if length toolCalls > 0 then Some toolCalls else None),
                         tool_call_id = None\<rparr>
                  in if truthy (content assistantMessage) \<or>
                        (case tool_calls assistantMessage of
                           Some calls \<Rightarrow> length calls > 0
                         | None \<Rightarrow> False)
                     then Inr [assistantMessage] else Inr []))
          else if msg_role anthropicMessage = ''user'' then
            (case user_parts stringify parts [] [] of
               Inl e \<Rightarrow> Inl e
             | Inr (userTextMessageContent, subsequentToolMessages) \<Rightarrow>
                 (let trimmedUserText = trim userTextMessageContent
                  in Inr ((if length trimmedUserText > 0
                           then [\<lparr>role = ''user'', content = Some trimmedUserText,
                                   tool_calls = None, tool_call_id = None\<rparr>]
                           else []) @ subsequentToolMessages)))
          else Inr [])"

fun expand_messages ::
  "('j \<Rightarrow> string option) \<Rightarrow> 'j AnthropicMessage list \<Rightarrow> error + OpenAIMessage list" where
  "expand_messages stringify [] = Inr []"
| "expand_messages stringify (anthropicMessage # rest) =
     (case expand_message stringify anthropicMessage of
        Inl e \<Rightarrow> Inl e
      | Inr fromThis \<Rightarrow>
          (case expand_messages stringify rest of
             Inl e \<Rightarrow> Inl e
           | Inr fromRest \<Rightarrow> Inr (fromThis @ fromRest)))"

section \<open>System messages\<close>

text \<open>
  The text part of a system message: the marker is set when the model of the request
  (\<open>body.model\<close>, before aliasing) contains \<open>claude\<close>.
\<close>

definition system_part :: "string \<Rightarrow> string \<Rightarrow> SystemContentPart" where
  "system_part mdl text =
     \<lparr>part_type = ''text'', part_text = text,
      cache_control = (if js_includes mdl ''claude'' then Some Ephemeral else None)\<rparr>"

text \<open>
  \<open>systemMessages\<close>. The destructuring \<open>system = []\<close> turns an absent prompt into the
  empty array, which maps to no message.
\<close>

definition systemMessages :: "string \<Rightarrow> SystemPrompt option \<Rightarrow> SystemMessage list" where
  "systemMessages mdl sys =
     (case sys of
        None \<Rightarrow> []
      | Some (SystemSegments items) \<Rightarrow>
          map (\<lambda>item. \<lparr>system_role = ''system'',
                        system_content = [system_part mdl (segment_text item)]\<rparr>) items
      | Some (SystemString s) \<Rightarrow>
          [\<lparr>system_role = ''system'', system_content = [system_part mdl s]\<rparr>])"

section \<open>The translator\<close>

text \<open>
  The own properties of the object literal \<open>modelProviderConfigs\<close> local to the
  translator; \<open>modelProviderConfigs[mappedModel]\<close> is
  \<open>get_property modelProviderConfigs mappedModel\<close>.
\<close>

definition modelProviderConfigs :: "string \<rightharpoonup> json" where
  "modelProviderConfigs =
     map_of
       [(''z-ai/glm-4.6:exacto'',
           JObject [(''only'', JArray [JString ''z-ai'']),
                    (''ignore'', JArray [JString ''deepinfra'', JString ''chutes'', JString ''novita'']),
                    (''allow_fallbacks'', JBool False),
                    (''data_collection'', JString ''deny''),
                    (''zdr'', JBool True)]),
        (''z-ai/glm-4.5-air:free'',
           JObject [(''only'', JArray [JString ''z-ai'']),
                    (''ignore'', JArray [JString ''deepinfra'', JString ''chutes'', JString ''novita'']),
                    (''allow_fallbacks'', JBool False)]),
        (''tngtech/deepseek-r1t2-chimera:free'',
           JObject [(''only'', JArray [JString ''chutes'']),
                    (''ignore'', JArray [JString ''deepinfra'', JString ''novita'']),
                    (''allow_fallbacks'', JBool False)])]"

text \<open>
  The \<open>map\<close> of the stripping path, on one message of
  \<open>[...systemMessages, ...openAIMessages]\<close>; \<open>None\<close> is the \<open>null\<close> that
  \<open>filter(Boolean)\<close> removes.
\<close>

definition message_role :: "PayloadMessage \<Rightarrow> string" where
  "message_role message =
     (case message of SystemMsg s \<Rightarrow> system_role s | ChatMsg m \<Rightarrow> role m)"

definition message_tool_calls :: "PayloadMessage \<Rightarrow> OpenAIToolCall list option" where
  "message_tool_calls message =
     (case message of SystemMsg s \<Rightarrow> None | ChatMsg m \<Rightarrow> tool_calls m)"

definition without_tool_calls :: "PayloadMessage \<Rightarrow> PayloadMessage" where
  "without_tool_calls message =
     (case message of
        SystemMsg s \<Rightarrow> SystemMsg s
      | ChatMsg m \<Rightarrow> ChatMsg (m\<lparr>tool_calls := None\<rparr>))"

definition strip_for_chimera :: "PayloadMessage \<Rightarrow> PayloadMessage option" where
  "strip_for_chimera message =
     (if message_role message = ''assistant'' \<and> message_tool_calls message \<noteq> None
      then Some (without_tool_calls message)
      else if message_role message = ''tool'' then None
      else Some message)"

definition convert_tool :: "'j ToolSchema \<Rightarrow> 'j FunctionTool" where
  "convert_tool item =
     \<lparr>tool_type = ''function'',
      tool_function = \<lparr>decl_name = tool_name item, decl_description = tool_description item,
                       decl_parameters = input_schema item\<rparr>\<rparr>"

text \<open>
  \<open>formatAnthropicToOpenAI\<close>: \<open>Inl\<close> is the error thrown, \<open>Inr\<close> the payload returned.
  All messages are validated before any is expanded. The tests \<open>!body\<close> and
  \<open>!Array.isArray(body.messages)\<close> are decided by the declared type of \<open>body\<close>; the
  test \<open>!body.model\<close> rejects the empty model string.
\<close>

definition formatAnthropicToOpenAI ::
  "('j \<Rightarrow> string option) \<Rightarrow> 'j MessageCreateParamsBase \<Rightarrow> error + 'j Payload" where
  "formatAnthropicToOpenAI stringify body =
     (if model body = [] then Inl ModelRequired
      else (case validate_messages 0 (messages body) of
              Some e \<Rightarrow> Inl e
            | None \<Rightarrow>
               (case expand_messages stringify (messages body) of
                  Inl e \<Rightarrow> Inl e
                | Inr openAIMessages \<Rightarrow>
                    (let sysMsgs = systemMessages (model body) (system body);
                         mappedModel = mapModel (model body);
                         isChimera = (mappedModel = ''tngtech/deepseek-r1t2-chimera:free'');
                         finalMessages =
                           (if isChimera
                            then List.map_filter strip_for_chimera
                                   (map SystemMsg sysMsgs @ map ChatMsg openAIMessages)
                            else map SystemMsg sysMsgs @
                                 map ChatMsg (validateOpenAIToolCalls openAIMessages))
                     in Inr \<lparr>data_model = mappedModel,
                             data_messages = finalMessages,
                             data_temperature = temperature body,
                             data_stream = stream body,
                             data_provider =
                               (if truthy_property (get_property modelProviderConfigs mappedModel)
                                then get_property modelProviderConfigs mappedModel else None),
                             data_tools =
                               (case tools body of
                                  Some ts \<Rightarrow>
                                    if \<not> isChimera then Some (map convert_tool ts) else None
                                | None \<Rightarrow> None)\<rparr>))))"

section \<open>The OpenAI-compatible handler\<close>

text \<open>
  The presets: the own properties of the object literal \<open>providerConfigs\<close> of the
  handler. The property access \<open>providerConfigs[key]\<close> is
  \<open>get_property providerConfigs key\<close>.
\<close>

definition providerConfigs :: "string \<rightharpoonup> json" where
  "providerConfigs =
     map_of
       [(''z-ai/glm-4.6:exacto'',
           JObject [(''only'', JArray [JString ''z-ai'']),
                    (''ignore'', JArray [JString ''deepinfra'', JString ''chutes'', JString ''novita'']),
                    (''allow_fallbacks'', JBool False),
                    (''data_collection'', JString ''deny''),
                    (''zdr'', JBool True)]),
        (''minimax/minimax-m2'',
           JObject [(''only'', JArray [JString ''minimax'']),
                    (''ignore'', JArray [JString ''deepinfra'', JString ''chutes'', JString ''novita'']),
                    (''allow_fallbacks'', JBool False),
                    (''data_collection'', JString ''deny''),
                    (''zdr'', JBool True)]),
        (''z-ai/glm-4.5-air:free'',
           JObject [(''only'', JArray [JString ''z-ai'']),
                    (''ignore'', JArray [JString ''deepinfra'', JString ''chutes'', JString ''novita'']),
                    (''allow_fallbacks'', JBool False)]),
        (''tngtech/deepseek-r1t2-chimera:free'',
           JObject [(''only'', JArray [JString ''chutes'']),
                    (''ignore'', JArray [JString ''deepinfra'', JString ''novita'']),
                    (''allow_fallbacks'', JBool False)])]"

text \<open>
  The decoded request body of the handler, as far as the handler reads it:
  \<open>provider\<close> is any JSON value (\<open>None\<close>: no such field), \<open>model\<close> is \<open>Some\<close> when
  it is a string, \<open>tools\<close> is an array of declarations when present, \<open>messages\<close> is
  \<open>Some\<close> when it is an array (of chat messages).
\<close>

record 't Incoming =
  incoming_provider :: "json option"
  incoming_model :: "string option"
  incoming_tools :: "'t list option"
  incoming_messages :: "OpenAIMessage list option"

text \<open>Step 3 of \<open>resolveProviderConfig\<close>: the default key of the environment.\<close>

definition from_env :: "string option \<Rightarrow> js_value option" where
  "from_env envDefault =
     (case envDefault of
        Some d \<Rightarrow>
          if d \<noteq> [] \<and> truthy_property (get_property providerConfigs d)
          then get_property providerConfigs d else None
      | None \<Rightarrow> None)"

text \<open>
  \<open>headers.get("X-OpenRouter-Provider") || headers.get("X-Provider")\<close>; \<open>headers\<close> is
  the lookup \<open>Headers.get\<close>, \<open>None\<close> its \<open>null\<close>.
\<close>

definition header_value :: "(string \<rightharpoonup> string) \<Rightarrow> string option" where
  "header_value headers =
     (case headers ''X-OpenRouter-Provider'' of
        Some v \<Rightarrow> if v \<noteq> [] then Some v else headers ''X-Provider''
      | None \<Rightarrow> headers ''X-Provider'')"

text \<open>
  Step 2 of \<open>resolveProviderConfig\<close> and what follows it. \<open>JSON.parse\<close> is the parameter
  \<open>JSON_parse\<close>; \<open>None\<close> is its exception, which the \<open>catch\<close> ignores.
\<close>

definition from_header ::
  "(string \<Rightarrow> json option) \<Rightarrow> (string \<rightharpoonup> string) \<Rightarrow> string option \<Rightarrow>
     js_value option" where
  "from_header JSON_parse headers envDefault =
     (case header_value headers of
        Some headerVal \<Rightarrow>
          if headerVal \<noteq> [] then
            (if truthy_property (get_property providerConfigs headerVal)
             then get_property providerConfigs headerVal
             else (case JSON_parse headerVal of
                     Some parsed \<Rightarrow>
                       if truthy_json parsed \<and> typeof_object parsed then Some (Json parsed)
                       else from_env envDefault
                   | None \<Rightarrow> from_env envDefault))
          else from_env envDefault
      | None \<Rightarrow> from_env envDefault)"

text \<open>\<open>resolveProviderConfig\<close>; \<open>None\<close> is \<open>undefined\<close>.\<close>

definition resolveProviderConfig ::
  "(string \<Rightarrow> json option) \<Rightarrow> 't Incoming \<Rightarrow> (string \<rightharpoonup> string) \<Rightarrow> string option \<Rightarrow>
     js_value option" where
  "resolveProviderConfig JSON_parse body headers envDefault =
     (case incoming_provider body of
        Some v \<Rightarrow>
          if truthy_json v then
            (case v of
               JString key \<Rightarrow> get_property providerConfigs key
             | _ \<Rightarrow> if typeof_object v then Some (Json v)
                    else from_header JSON_parse headers envDefault)
          else from_header JSON_parse headers envDefault
      | None \<Rightarrow> from_header JSON_parse headers envDefault)"

text \<open>
  The stripping of \<open>handleOaiIfMatch\<close> for the model without tool support, applied to
  the request body before it is forwarded.
\<close>

definition strip_incoming_message :: "OpenAIMessage \<Rightarrow> OpenAIMessage option" where
  "strip_incoming_message message =
     (if role message = ''tool'' then None
      else if role message = ''assistant'' \<and> tool_calls message \<noteq> None
      then Some (message\<lparr>tool_calls := None\<rparr>)
      else Some message)"

definition strip_incoming :: "'t Incoming \<Rightarrow> 't Incoming" where
  "strip_incoming incoming =
     (let mappedModel = map_option mapModel (incoming_model incoming);
          isChimera = (mappedModel = Some ''tngtech/deepseek-r1t2-chimera:free'')
      in if isChimera
         then incoming\<lparr>incoming_tools := None,
                incoming_messages :=
                  map_option (List.map_filter strip_incoming_message)
                    (incoming_messages incoming)\<rparr>
         else incoming)"

section \<open>Notions used in the statements and proofs\<close>

text \<open>
  The nearest message before a position that is not a tool message: the message the
  backward walk of the validator stops at. \<open>before\<close> is the list of the messages before
  the position.
\<close>

definition nearest_non_tool :: "OpenAIMessage list \<Rightarrow> OpenAIMessage option" where
  "nearest_non_tool before = find (\<lambda>m. role m \<noteq> ''tool'') (rev before)"

text \<open>
  A tool message \<open>t\<close> answers the candidate \<open>c\<close>: the candidate is an assistant message
  with invocations, one of which has the (truthy) \<open>tool_call_id\<close> of \<open>t\<close>.
\<close>

definition answers :: "OpenAIMessage option \<Rightarrow> OpenAIMessage \<Rightarrow> bool" where
  "answers c t =
     (case c of
        None \<Rightarrow> False
      | Some a \<Rightarrow>
          (case (role a = ''assistant'', tool_calls a) of
             (True, Some calls) \<Rightarrow> toolCallIds_has calls (tool_call_id t)
           | _ \<Rightarrow> False))"

text \<open>What the validator pushes for a message that is not a tool message, given the run
  of tool messages after it.\<close>

definition emit :: "OpenAIMessage \<Rightarrow> OpenAIMessage list \<Rightarrow> OpenAIMessage list" where
  "emit m run =
     (case (role m = ''assistant'', tool_calls m) of
        (True, Some calls) \<Rightarrow> updateAssistant run m calls
      | _ \<Rightarrow> [m])"

text \<open>
  The validator as a recursion over the list, carrying the nearest non-tool message seen
  so far. \<open>validateOpenAIToolCalls_from\<close> proves it equal to the loop over positions.
\<close>

fun validate_from :: "OpenAIMessage option \<Rightarrow> OpenAIMessage list \<Rightarrow> OpenAIMessage list" where
  "validate_from c [] = []"
| "validate_from c (m # ms) =
     (if role m = ''tool'' then (if answers c m then [m] else []) @ validate_from c ms
      else emit m (takeWhile (\<lambda>t. role t = ''tool'') ms) @ validate_from (Some m) ms)"

definition validCalls :: "OpenAIMessage list \<Rightarrow> OpenAIToolCall list \<Rightarrow> OpenAIToolCall list" where
  "validCalls run calls =
     filter (\<lambda>toolCall. map_has (toolMessageMap run) (call_id toolCall)) calls"

definition candidate_after ::
  "OpenAIMessage option \<Rightarrow> OpenAIMessage list \<Rightarrow> OpenAIMessage option" where
  "candidate_after c before = (case nearest_non_tool before of None \<Rightarrow> c | Some a \<Rightarrow> Some a)"

text \<open>
  \<open>m'\<close> is \<open>m\<close> with some invocations removed: the same role, content and
  \<open>tool_call_id\<close>, and the invocations of \<open>m'\<close> are a subsequence of those of \<open>m\<close>.
\<close>

definition pruned_from :: "OpenAIMessage \<Rightarrow> OpenAIMessage \<Rightarrow> bool" where
  "pruned_from m' m =
     (role m' = role m \<and> content m' = content m \<and> tool_call_id m' = tool_call_id m \<and>
      (case tool_calls m' of
         None \<Rightarrow> True
       | Some calls' \<Rightarrow>
           (case tool_calls m of None \<Rightarrow> False | Some calls \<Rightarrow> subseq calls' calls)))"

text \<open>
  An assistant message carries information: it has content or at least one invocation.
  Messages of other roles are not constrained.
\<close>

definition informative :: "OpenAIMessage \<Rightarrow> bool" where
  "informative m =
     (role m = ''assistant'' \<longrightarrow>
        truthy (content m) \<or> (case tool_calls m of Some calls \<Rightarrow> calls \<noteq> [] | None \<Rightarrow> False))"

text \<open>The system messages of a payload, and the texts of a system prompt.\<close>

definition system_messages_of :: "PayloadMessage list \<Rightarrow> SystemMessage list" where
  "system_messages_of ms =
     List.map_filter (\<lambda>m. case m of SystemMsg s \<Rightarrow> Some s | ChatMsg c \<Rightarrow> None) ms"

definition prompt_texts :: "SystemPrompt option \<Rightarrow> string list" where
  "prompt_texts sys =
     (case sys of
        None \<Rightarrow> []
      | Some (SystemString s) \<Rightarrow> [s]
      | Some (SystemSegments items) \<Rightarrow> map segment_text items)"

text \<open>
  The target messages of the source messages that have role \<open>system\<close> and string
  content: the expansion passes each of them on with its role and content.
\<close>

definition system_role_messages :: "'j AnthropicMessage list \<Rightarrow> OpenAIMessage list" where
  "system_role_messages ms =
     concat (map (\<lambda>m. case msg_content m of
                      StringContent s \<Rightarrow>
                        if msg_role m = ''system''
                        then [\<lparr>role = ''system'', content = Some s, tool_calls = None,
                               tool_call_id = None\<rparr>]
                        else []
                    | PartsContent parts \<Rightarrow> []) ms)"

section \<open>Example inputs\<close>

text \<open>A chat message with the given role, content, invocation ids and \<open>tool_call_id\<close>.\<close>

definition chat :: "string \<Rightarrow> string option \<Rightarrow> string list option \<Rightarrow> string option \<Rightarrow> OpenAIMessage" where
  "chat r c ids tcid =
     \<lparr>role = r, content = c,
      tool_calls =
        map_option
          (map (\<lambda>i. \<lparr>call_id = i, call_type = ''function'',
                      function_def = \<lparr>fn_name = ''search'', fn_arguments = ''{}''\<rparr>\<rparr>)) ids,
      tool_call_id = tcid\<rparr>"

text \<open>
  An assistant message with two invocations, followed by a result for the second one, a
  result for an unknown invocation and a user message followed by an orphan result.
\<close>

definition example_messages :: "OpenAIMessage list" where
  "example_messages =
     [chat ''assistant'' None (Some [''t1'', ''t2'']) None,
      chat ''tool'' (Some ''r2'') None (Some ''t2''),
      chat ''tool'' (Some ''r3'') None (Some ''t3''),
      chat ''user'' (Some ''next'') None None,
      chat ''tool'' (Some ''r1'') None (Some ''t1'')]"

text \<open>
  A request for the model \<open>claude-3-opus\<close> with a system prompt, one tool declaration
  and an assistant message that only invokes a tool (structured values are kept as their
  JSON text, and \<open>Some\<close> serialises them).
\<close>

definition opus_request :: "string MessageCreateParamsBase" where
  "opus_request =
     \<lparr>model = ''claude-3-opus'',
      messages =
        [\<lparr>msg_role = ''assistant'',
          msg_content = PartsContent [ToolUsePart ''t1'' ''search'' ''{}'']\<rparr>],
      system = Some (SystemString ''be brief''),
      temperature = None,
      tools = Some [\<lparr>tool_name = ''search'', tool_description = ''web search'',
                     input_schema = ''{}''\<rparr>],
      stream = None\<rparr>"

text \<open>The payload the translator returns for it (lemma \<open>format_opus_request\<close>).\<close>

definition opus_payload :: "string Payload" where
  "opus_payload =
     \<lparr>data_model = ''tngtech/deepseek-r1t2-chimera:free'',
      data_messages =
        [SystemMsg
           \<lparr>system_role = ''system'',
            system_content =
              [\<lparr>part_type = ''text'', part_text = ''be brief'',
                cache_control = Some Ephemeral\<rparr>]\<rparr>,
         ChatMsg
           \<lparr>role = ''assistant'', content = None, tool_calls = None, tool_call_id = None\<rparr>],
      data_temperature = None,
      data_stream = None,
      data_provider =
        Some (Json (JObject [(''only'', JArray [JString ''chutes'']),
                             (''ignore'', JArray [JString ''deepinfra'', JString ''novita'']),
                             (''allow_fallbacks'', JBool False)])),
      data_tools = None\<rparr>"

text \<open>The same conversation for a model that no keyword aliases, without a system prompt.\<close>

definition plain_request :: "string MessageCreateParamsBase" where
  "plain_request = opus_request\<lparr>model := ''gpt-4o'', system := None\<rparr>"

text \<open>A request whose system prompt is a sequence of two segments.\<close>

definition segments_request :: "string MessageCreateParamsBase" where
  "segments_request =
     opus_request\<lparr>model := ''claude-3-sonnet'',
       system := Some (SystemSegments [\<lparr>segment_text = ''one''\<rparr>, \<lparr>segment_text = ''two''\<rparr>])\<rparr>"

text \<open>
  A request with a string system prompt whose first source message has role
  \<open>system\<close>.
\<close>

definition system_chat_request :: "string MessageCreateParamsBase" where
  "system_chat_request =
     opus_request\<lparr>model := ''gpt-4o'',
       messages := [\<lparr>msg_role = ''system'', msg_content = StringContent ''extra rules''\<rparr>,
                    \<lparr>msg_role = ''user'', msg_content = StringContent ''hello''\<rparr>]\<rparr>"

text \<open>A request body of the handler without a \<open>provider\<close> field.\<close>

definition bare_incoming :: "string Incoming" where
  "bare_incoming =
     \<lparr>incoming_provider = None, incoming_model = Some ''claude-3-opus'',
      incoming_tools = Some [''{}''],
      incoming_messages = Some example_messages\<rparr>"

section \<open>The validator as a recursion over the list\<close>

lemma nearest_non_tool_Nil [simp]: "nearest_non_tool [] = None"
  by (simp add: nearest_non_tool_def)

lemma nearest_non_tool_snoc:
  "nearest_non_tool (before @ [m]) = (if role m \<noteq> ''tool'' then Some m else nearest_non_tool before)"
  by (simp add: nearest_non_tool_def)

lemma nearest_non_tool_Cons:
  "nearest_non_tool (m # before) =
     (case nearest_non_tool before of
        None \<Rightarrow> if role m \<noteq> ''tool'' then Some m else None
      | Some a \<Rightarrow> Some a)"
  by (induction before rule: rev_induct)
     (simp_all add: nearest_non_tool_def)

lemma walk_back_nearest:
  "n \<le> length ms \<Longrightarrow> walk_back ms cur n = answers (nearest_non_tool (take n ms)) cur"
proof (induction n)
  case 0
  then show ?case by (simp add: answers_def)
next
  case (Suc n)
  then have "take (Suc n) ms = take n ms @ [ms ! n]"
    by (simp add: take_Suc_conv_app_nth)
  with Suc show ?case
    by (simp add: nearest_non_tool_snoc answers_def Let_def)
qed

lemma hasImmediateToolCall_nearest:
  assumes "i \<le> length ms"
  shows "hasImmediateToolCall ms i cur = answers (nearest_non_tool (take i ms)) cur"
proof (cases i)
  case 0
  then show ?thesis by (simp add: hasImmediateToolCall_def answers_def)
next
  case (Suc k)
  with assms have t: "take (Suc k) ms = take k ms @ [ms ! k]"
    by (simp add: take_Suc_conv_app_nth)
  show ?thesis
  proof (cases "role (ms ! k) = ''tool''")
    case True
    with Suc assms walk_back_nearest [of i ms cur] show ?thesis
      by (simp add: hasImmediateToolCall_def split: option.splits bool.splits)
  next
    case False
    with Suc t show ?thesis
      by (simp add: hasImmediateToolCall_def nearest_non_tool_snoc answers_def
               split: option.splits bool.splits)
  qed
qed

lemma validate_step_eq:
  "validate_step (before @ m # ms) (length before) =
     (if role m = ''tool'' then (if answers (nearest_non_tool before) m then [m] else [])
      else emit m (takeWhile (\<lambda>t. role t = ''tool'') ms))"
  using hasImmediateToolCall_nearest [of "length before" "before @ m # ms" m]
  by (auto simp: validate_step_def emit_def immediateToolMessages_def
           split: option.splits bool.splits)

lemma validate_steps_from:
  "concat (map (validate_step (before @ ms)) [length before ..< length before + length ms]) =
     validate_from (nearest_non_tool before) ms"
proof (induction ms arbitrary: before)
  case Nil
  then show ?case by simp
next
  case (Cons m ms)
  have u: "[length before ..< length before + length (m # ms)] =
           length before # [length (before @ [m]) ..< length (before @ [m]) + length ms]"
  proof -
    have "length before < length before + length (m # ms)" by simp
    then have "[length before ..< length before + length (m # ms)] =
               length before # [Suc (length before) ..< length before + length (m # ms)]"
      by (rule upt_conv_Cons)
    then show ?thesis by simp
  qed
  have "concat (map (validate_step ((before @ [m]) @ ms))
          [length (before @ [m]) ..< length (before @ [m]) + length ms]) =
        validate_from (nearest_non_tool (before @ [m])) ms"
    by (rule Cons.IH)
  then have r: "concat (map (validate_step (before @ m # ms))
          [length (before @ [m]) ..< length (before @ [m]) + length ms]) =
        validate_from (nearest_non_tool (before @ [m])) ms"
    by simp
  show ?case
    unfolding u
    by (simp only: list.map concat.simps r validate_step_eq)
       (simp add: nearest_non_tool_snoc)
qed

lemma validateOpenAIToolCalls_from:
  "validateOpenAIToolCalls ms = validate_from None ms"
  using validate_steps_from [of "[]" ms]
  by (simp add: validateOpenAIToolCalls_def)


section \<open>Properties of the validator\<close>

lemma toolMessageMap_foldl_has:
  "map_has (foldl (\<lambda>mp toolMsg.
              (case tool_call_id toolMsg of
                 Some k \<Rightarrow> if k \<noteq> [] then mp(k \<mapsto> toolMsg) else mp
               | None \<Rightarrow> mp)) mp0 run) k =
   (map_has mp0 k \<or> (k \<noteq> [] \<and> (\<exists>t\<in>set run. tool_call_id t = Some k)))"
  by (induction run arbitrary: mp0) (auto simp: map_has_def split: option.splits)

lemma toolMessageMap_has:
  "map_has (toolMessageMap run) k = (k \<noteq> [] \<and> (\<exists>t\<in>set run. tool_call_id t = Some k))"
  unfolding toolMessageMap_def toolMessageMap_foldl_has
  by (simp add: map_has_def)

lemma toolCallIds_has_iff:
  "toolCallIds_has calls tcid =
     (\<exists>k. tcid = Some k \<and> k \<noteq> [] \<and> (\<exists>c\<in>set calls. call_id c = k))"
  by (auto simp: toolCallIds_has_def split: option.splits)

lemma updateAssistant_eq:
  "updateAssistant run m calls =
     (if validCalls run calls \<noteq> [] then [m\<lparr>tool_calls := Some (validCalls run calls)\<rparr>]
      else if truthy (content m) then [m\<lparr>tool_calls := None\<rparr>] else [])"
  by (simp add: updateAssistant_def validCalls_def Let_def)

lemma answers_Some_iff:
  "answers (Some a) t =
     (role a = ''assistant'' \<and>
      (\<exists>calls. tool_calls a = Some calls \<and> toolCallIds_has calls (tool_call_id t)))"
  by (auto simp: answers_def split: option.splits bool.splits)

lemma answers_None [simp]: "\<not> answers None t"
  by (simp add: answers_def)

lemma answers_validCalls:
  assumes "t \<in> set run" and "toolCallIds_has calls (tool_call_id t)"
  shows "toolCallIds_has (validCalls run calls) (tool_call_id t)"
proof -
  from assms(2) obtain k c where k: "tool_call_id t = Some k" "k \<noteq> []" "c \<in> set calls" "call_id c = k"
    by (auto simp: toolCallIds_has_iff)
  with assms(1) have "map_has (toolMessageMap run) (call_id c)"
    by (auto simp: toolMessageMap_has)
  with k have "c \<in> set (validCalls run calls)" by (simp add: validCalls_def)
  with k show ?thesis by (auto simp: toolCallIds_has_iff)
qed

lemma emit_cases:
  "emit m run = [] \<or> (\<exists>m'. emit m run = [m'] \<and> role m' = role m)"
  by (auto simp: emit_def updateAssistant_eq split: option.splits bool.splits)

lemma emit_Nil_no_answers:
  assumes "emit m run = []" and "t \<in> set run"
  shows "\<not> answers (Some m) t"
proof
  assume a: "answers (Some m) t"
  then obtain calls where c: "role m = ''assistant''" "tool_calls m = Some calls"
      "toolCallIds_has calls (tool_call_id t)"
    by (auto simp: answers_Some_iff)
  with assms(2) have "toolCallIds_has (validCalls run calls) (tool_call_id t)"
    by (simp add: answers_validCalls)
  then have "validCalls run calls \<noteq> []" by (auto simp: toolCallIds_has_iff)
  with c assms(1) show False by (simp add: emit_def updateAssistant_eq)
qed

lemma emit_answers_kept:
  assumes "emit m run = [m']" and "t \<in> set run" and "answers (Some m) t"
  shows "answers (Some m') t"
proof -
  from assms(3) obtain calls where c: "role m = ''assistant''" "tool_calls m = Some calls"
      "toolCallIds_has calls (tool_call_id t)"
    by (auto simp: answers_Some_iff)
  with assms(2) have v: "toolCallIds_has (validCalls run calls) (tool_call_id t)"
    by (simp add: answers_validCalls)
  then have "validCalls run calls \<noteq> []" by (auto simp: toolCallIds_has_iff)
  with c assms(1) have "m' = m\<lparr>tool_calls := Some (validCalls run calls)\<rparr>"
    by (simp add: emit_def updateAssistant_eq)
  with c v show ?thesis by (simp add: answers_Some_iff)
qed

lemma emit_calls_answered:
  assumes "emit m run = [m']" and "role m = ''assistant''" and "tool_calls m' = Some calls'"
    and "c \<in> set calls'"
  shows "\<exists>t\<in>set run. tool_call_id t = Some (call_id c) \<and> answers (Some m) t"
proof (cases "tool_calls m")
  case None
  with assms show ?thesis by (simp add: emit_def)
next
  case (Some calls)
  with assms(1,2) have u: "updateAssistant run m calls = [m']" by (simp add: emit_def)
  have v: "calls' = validCalls run calls"
    using u assms(3) by (auto simp: updateAssistant_eq split: if_splits)
  with assms(4) have "c \<in> set calls" "map_has (toolMessageMap run) (call_id c)"
    by (simp_all add: validCalls_def)
  then obtain t where "t \<in> set run" "tool_call_id t = Some (call_id c)" "call_id c \<noteq> []"
    by (auto simp: toolMessageMap_has)
  with \<open>c \<in> set calls\<close> Some assms(2) show ?thesis
    by (auto simp: answers_Some_iff toolCallIds_has_iff)
qed

lemma validCalls_idem:
  "validCalls (filter (answers (Some m)) run) (validCalls run calls) = validCalls run calls"
  if "role m = ''assistant''" "tool_calls m = Some calls"
proof -
  have "map_has (toolMessageMap (filter (answers (Some m)) run)) (call_id c)"
    if "c \<in> set (validCalls run calls)" for c
  proof -
    from that have "c \<in> set calls" "map_has (toolMessageMap run) (call_id c)"
      by (simp_all add: validCalls_def)
    then obtain t where t: "t \<in> set run" "tool_call_id t = Some (call_id c)" "call_id c \<noteq> []"
      by (auto simp: toolMessageMap_has)
    with \<open>c \<in> set calls\<close> \<open>role m = ''assistant''\<close> \<open>tool_calls m = Some calls\<close>
    have "answers (Some m) t"
      by (auto simp: answers_Some_iff toolCallIds_has_iff)
    with t show ?thesis by (auto simp: toolMessageMap_has)
  qed
  then show ?thesis
    by (simp add: validCalls_def [of "filter (answers (Some m)) run"])
qed

lemma emit_idem:
  assumes "emit m run = [m']"
  shows "emit m' (filter (answers (Some m)) run) = [m']"
proof (cases "role m = ''assistant''")
  case False
  with assms show ?thesis by (auto simp: emit_def)
next
  case True
  show ?thesis
  proof (cases "tool_calls m")
    case None
    with assms True show ?thesis by (auto simp: emit_def)
  next
    case (Some calls)
    with assms True have u: "updateAssistant run m calls = [m']" by (simp add: emit_def)
    show ?thesis
    proof (cases "validCalls run calls = []")
      case True
      with u have "m' = m\<lparr>tool_calls := None\<rparr>"
        by (auto simp: updateAssistant_eq split: if_splits)
      then show ?thesis by (simp add: emit_def split: bool.splits)
    next
      case False
      with u have m': "m' = m\<lparr>tool_calls := Some (validCalls run calls)\<rparr>"
        by (auto simp: updateAssistant_eq split: if_splits)
      with True Some False validCalls_idem [OF True Some, of run] show ?thesis
        by (simp add: emit_def updateAssistant_eq)
    qed
  qed
qed

lemma takeWhile_validate_from:
  "takeWhile (\<lambda>t. role t = ''tool'') (validate_from c ms) =
     filter (answers c) (takeWhile (\<lambda>t. role t = ''tool'') ms)"
proof (induction ms arbitrary: c)
  case Nil
  then show ?case by simp
next
  case (Cons m ms)
  show ?case
  proof (cases "role m = ''tool''")
    case True
    with Cons show ?thesis by simp
  next
    case False
    from emit_cases [of m "takeWhile (\<lambda>t. role t = ''tool'') ms"] show ?thesis
    proof (elim disjE exE conjE)
      assume e: "emit m (takeWhile (\<lambda>t. role t = ''tool'') ms) = []"
      then have "filter (answers (Some m)) (takeWhile (\<lambda>t. role t = ''tool'') ms) = []"
        by (auto simp: filter_empty_conv dest: emit_Nil_no_answers)
      with e False Cons [of "Some m"] show ?thesis by simp
    next
      fix m' assume "emit m (takeWhile (\<lambda>t. role t = ''tool'') ms) = [m']" "role m' = role m"
      with False show ?thesis by simp
    qed
  qed
qed

lemma validate_from_idem:
  "\<forall>t\<in>set (takeWhile (\<lambda>t. role t = ''tool'') ms). answers c t \<longrightarrow> answers c' t \<Longrightarrow>
   validate_from c' (validate_from c ms) = validate_from c ms"
proof (induction ms arbitrary: c c')
  case Nil
  then show ?case by simp
next
  case (Cons m ms)
  let ?run = "takeWhile (\<lambda>t. role t = ''tool'') ms"
  show ?case
  proof (cases "role m = ''tool''")
    case True
    with Cons.prems have r: "\<forall>t\<in>set ?run. answers c t \<longrightarrow> answers c' t"
      and h: "answers c m \<longrightarrow> answers c' m" by simp_all
    from Cons.IH [OF r] h True show ?thesis by simp
  next
    case False
    from emit_cases [of m ?run] show ?thesis
    proof (elim disjE exE conjE)
      assume e: "emit m ?run = []"
      then have "\<forall>t\<in>set ?run. answers (Some m) t \<longrightarrow> answers c' t"
        by (auto dest: emit_Nil_no_answers)
      from Cons.IH [OF this] e False show ?thesis by simp
    next
      fix m' assume e: "emit m ?run = [m']" and r: "role m' = role m"
      then have "\<forall>t\<in>set ?run. answers (Some m) t \<longrightarrow> answers (Some m') t"
        by (auto dest: emit_answers_kept)
      from Cons.IH [OF this] e r False emit_idem [OF e] show ?thesis
        by (simp add: takeWhile_validate_from)
    qed
  qed
qed

lemma validate_from_invocations_answered:
  assumes "validate_from c ms = before @ a # after" and "role a = ''assistant''"
    and "tool_calls a = Some calls" and "call \<in> set calls"
  shows "\<exists>t\<in>set (takeWhile (\<lambda>t. role t = ''tool'') after). tool_call_id t = Some (call_id call)"
  using assms
proof (induction ms arbitrary: c before)
  case Nil
  then show ?case by simp
next
  case (Cons m ms)
  let ?run = "takeWhile (\<lambda>t. role t = ''tool'') ms"
  show ?case
  proof (cases "role m = ''tool''")
    case True
    show ?thesis
    proof (cases "answers c m")
      case False
      with True Cons.prems Cons.IH [of c before] show ?thesis by simp
    next
      case a: True
      with True Cons.prems(1) have e: "m # validate_from c ms = before @ a # after" by simp
      show ?thesis
      proof (cases before)
        case Nil
        with e True Cons.prems(2) show ?thesis by simp
      next
        case (Cons b before')
        with e have "validate_from c ms = before' @ a # after" by simp
        from Cons.IH [OF this Cons.prems(2-4)] show ?thesis .
      qed
    qed
  next
    case False
    from emit_cases [of m ?run] show ?thesis
    proof (elim disjE exE conjE)
      assume "emit m ?run = []"
      with False Cons.prems(1) have "validate_from (Some m) ms = before @ a # after" by simp
      from Cons.IH [OF this Cons.prems(2-4)] show ?thesis .
    next
      fix m' assume e: "emit m ?run = [m']" and r: "role m' = role m"
      with False Cons.prems(1) have eq: "m' # validate_from (Some m) ms = before @ a # after"
        by simp
      show ?thesis
      proof (cases before)
        case Nil
        with eq have a: "a = m'" and after: "after = validate_from (Some m) ms" by simp_all
        from a r Cons.prems(2) have "role m = ''assistant''" by simp
        from emit_calls_answered [OF e this] a Cons.prems(3,4)
        obtain t where "t \<in> set ?run" "tool_call_id t = Some (call_id call)" "answers (Some m) t"
          by blast
        then show ?thesis
          unfolding after takeWhile_validate_from by auto
      next
        case (Cons b before')
        with eq have "validate_from (Some m) ms = before' @ a # after" by simp
        from Cons.IH [OF this Cons.prems(2-4)] show ?thesis .
      qed
    qed
  qed
qed

lemma candidate_after_Nil [simp]: "candidate_after c [] = c"
  by (simp add: candidate_after_def)

lemma candidate_after_Cons:
  "candidate_after c (m # before) =
     candidate_after (if role m \<noteq> ''tool'' then Some m else c) before"
  by (simp add: candidate_after_def nearest_non_tool_Cons split: option.splits)

lemma validate_from_results_matched:
  assumes "\<forall>t\<in>set (takeWhile (\<lambda>t. role t = ''tool'') ms). answers c t \<longrightarrow> answers c' t"
    and "validate_from c ms = before @ t # after" and "role t = ''tool''"
  shows "answers (candidate_after c' before) t"
  using assms
proof (induction ms arbitrary: c c' before)
  case Nil
  then show ?case by simp
next
  case (Cons m ms)
  let ?run = "takeWhile (\<lambda>t. role t = ''tool'') ms"
  show ?case
  proof (cases "role m = ''tool''")
    case True
    with Cons.prems(1) have r: "\<forall>t\<in>set ?run. answers c t \<longrightarrow> answers c' t"
      and h: "answers c m \<longrightarrow> answers c' m" by simp_all
    show ?thesis
    proof (cases "answers c m")
      case False
      with True Cons.prems(2) have "validate_from c ms = before @ t # after" by simp
      from Cons.IH [OF r this Cons.prems(3)] show ?thesis .
    next
      case a: True
      with True Cons.prems(2) have e: "m # validate_from c ms = before @ t # after" by simp
      show ?thesis
      proof (cases before)
        case Nil
        with e a h show ?thesis by simp
      next
        case (Cons b before')
        with e have b: "b = m" and "validate_from c ms = before' @ t # after" by simp_all
        from Cons.IH [OF r this(2) Cons.prems(3)] Cons b True show ?thesis
          by (simp add: candidate_after_Cons)
      qed
    qed
  next
    case False
    from emit_cases [of m ?run] show ?thesis
    proof (elim disjE exE conjE)
      assume e: "emit m ?run = []"
      then have r: "\<forall>t\<in>set ?run. answers (Some m) t \<longrightarrow> answers c' t"
        by (auto dest: emit_Nil_no_answers)
      from e False Cons.prems(2) have "validate_from (Some m) ms = before @ t # after" by simp
      from Cons.IH [OF r this Cons.prems(3)] show ?thesis .
    next
      fix m' assume e: "emit m ?run = [m']" and rm: "role m' = role m"
      then have r: "\<forall>t\<in>set ?run. answers (Some m) t \<longrightarrow> answers (Some m') t"
        by (auto dest: emit_answers_kept)
      from e False Cons.prems(2) have eq: "m' # validate_from (Some m) ms = before @ t # after"
        by simp
      show ?thesis
      proof (cases before)
        case Nil
        with eq rm False Cons.prems(3) show ?thesis by simp
      next
        case (Cons b before')
        with eq have b: "b = m'" and "validate_from (Some m) ms = before' @ t # after"
          by simp_all
        from Cons.IH [OF r this(2) Cons.prems(3)] Cons b rm False show ?thesis
          by (simp add: candidate_after_Cons)
      qed
    qed
  qed
qed

lemma pruned_from_refl [simp]: "pruned_from m m"
  by (simp add: pruned_from_def split: option.splits)

lemma emit_pruned: "emit m run = [m'] \<Longrightarrow> pruned_from m' m"
  by (auto simp: emit_def updateAssistant_eq validCalls_def pruned_from_def
           split: option.splits bool.splits if_splits)

lemma validate_from_only_removes:
  "list_emb pruned_from (validate_from c ms) ms"
proof (induction ms arbitrary: c)
  case Nil
  then show ?case by simp
next
  case (Cons m ms)
  show ?case
  proof (cases "role m = ''tool''")
    case True
    with Cons [of c] show ?thesis by auto
  next
    case False
    from emit_cases [of m "takeWhile (\<lambda>t. role t = ''tool'') ms"] show ?thesis
    proof (elim disjE exE conjE)
      assume "emit m (takeWhile (\<lambda>t. role t = ''tool'') ms) = []"
      with False Cons [of "Some m"] show ?thesis by auto
    next
      fix m' assume e: "emit m (takeWhile (\<lambda>t. role t = ''tool'') ms) = [m']"
      from emit_pruned [OF e] e False Cons [of "Some m"] show ?thesis by auto
    qed
  qed
qed

lemma validate_example:
  "validateOpenAIToolCalls example_messages =
     [chat ''assistant'' None (Some [''t2'']) None,
      chat ''tool'' (Some ''r2'') None (Some ''t2''),
      chat ''user'' (Some ''next'') None None]"
  by (simp add: validateOpenAIToolCalls_def validate_step_def updateAssistant_def
        hasImmediateToolCall_def immediateToolMessages_def toolMessageMap_def map_has_def
        toolCallIds_has_def truthy_def example_messages_def chat_def upt_conv_Cons)

text \<open>
  Claim C2. For every input sequence, the output of the tool-call consistency validator
  satisfies: every invocation of a retained assistant message has its id as the
  \<open>tool_call_id\<close> of some tool message in the maximal run of tool messages right after
  it, and the \<open>tool_call_id\<close> of every retained tool message is the id of an invocation
  of the nearest preceding non-tool message, which is an assistant message. The
  validator only removes: the output embeds into the input, each retained message being
  the input message with some invocations removed, and it is a total function that has
  no error result.
\<close>

theorem validateOpenAIToolCalls_no_orphans:
  "list_emb pruned_from (validateOpenAIToolCalls ms) ms \<and>
   (\<forall>before m after. validateOpenAIToolCalls ms = before @ m # after \<longrightarrow>
      (role m = ''assistant'' \<longrightarrow>
         (\<forall>calls call. tool_calls m = Some calls \<and> call \<in> set calls \<longrightarrow>
            (\<exists>t\<in>set (takeWhile (\<lambda>t. role t = ''tool'') after).
               tool_call_id t = Some (call_id call)))) \<and>
      (role m = ''tool'' \<longrightarrow>
         (\<exists>a calls call. nearest_non_tool before = Some a \<and> role a = ''assistant'' \<and>
            tool_calls a = Some calls \<and> call \<in> set calls \<and>
            tool_call_id m = Some (call_id call))))"
proof (intro conjI allI impI)
  show "list_emb pruned_from (validateOpenAIToolCalls ms) ms"
    by (simp add: validateOpenAIToolCalls_from validate_from_only_removes)
next
  fix before m after calls call
  assume "validateOpenAIToolCalls ms = before @ m # after" "role m = ''assistant''"
    "tool_calls m = Some calls \<and> call \<in> set calls"
  with validate_from_invocations_answered [of None ms before m after calls call]
  show "\<exists>t\<in>set (takeWhile (\<lambda>t. role t = ''tool'') after). tool_call_id t = Some (call_id call)"
    by (simp add: validateOpenAIToolCalls_from)
next
  fix before m after
  assume "validateOpenAIToolCalls ms = before @ m # after" "role m = ''tool''"
  with validate_from_results_matched [of ms None None before m after]
  have "answers (nearest_non_tool before) m"
    by (simp add: validateOpenAIToolCalls_from candidate_after_def split: option.splits)
  then show "\<exists>a calls call. nearest_non_tool before = Some a \<and> role a = ''assistant'' \<and>
               tool_calls a = Some calls \<and> call \<in> set calls \<and>
               tool_call_id m = Some (call_id call)"
    by (cases "nearest_non_tool before") (auto simp: answers_Some_iff toolCallIds_has_iff)
qed

theorem validateOpenAIToolCalls_no_orphans_witness:
  "validateOpenAIToolCalls example_messages =
     [] @ chat ''assistant'' None (Some [''t2'']) None #
       [chat ''tool'' (Some ''r2'') None (Some ''t2''), chat ''user'' (Some ''next'') None None] \<and>
   role (chat ''assistant'' None (Some [''t2'']) None) = ''assistant'' \<and>
   map call_id (the (tool_calls (chat ''assistant'' None (Some [''t2'']) None))) = [''t2''] \<and>
   (\<exists>t\<in>set (takeWhile (\<lambda>t. role t = ''tool'')
              [chat ''tool'' (Some ''r2'') None (Some ''t2''),
               chat ''user'' (Some ''next'') None None]).
      tool_call_id t = Some ''t2'') \<and>
   validateOpenAIToolCalls example_messages =
     [chat ''assistant'' None (Some [''t2'']) None] @
       chat ''tool'' (Some ''r2'') None (Some ''t2'') # [chat ''user'' (Some ''next'') None None] \<and>
   role (chat ''tool'' (Some ''r2'') None (Some ''t2'')) = ''tool'' \<and>
   (\<exists>a calls call. nearest_non_tool [chat ''assistant'' None (Some [''t2'']) None] = Some a \<and>
      role a = ''assistant'' \<and> tool_calls a = Some calls \<and> call \<in> set calls \<and>
      tool_call_id (chat ''tool'' (Some ''r2'') None (Some ''t2'')) = Some (call_id call)) \<and>
   list_emb pruned_from (validateOpenAIToolCalls example_messages) example_messages"
proof -
  let ?a = "chat ''assistant'' None (Some [''t2'']) None"
  let ?t = "chat ''tool'' (Some ''r2'') None (Some ''t2'')"
  let ?u = "chat ''user'' (Some ''next'') None None"
  let ?call = "\<lparr>call_id = ''t2'', call_type = ''function'',
                 function_def = \<lparr>fn_name = ''search'', fn_arguments = ''{}''\<rparr>\<rparr>"
  note inst = validateOpenAIToolCalls_no_orphans [of example_messages]
  have e1: "validateOpenAIToolCalls example_messages = [] @ ?a # [?t, ?u]"
    and e2: "validateOpenAIToolCalls example_messages = [?a] @ ?t # [?u]"
    by (simp_all add: validate_example)
  have r: "role ?a = ''assistant''" "role ?t = ''tool''"
    and c: "tool_calls ?a = Some [?call] \<and> ?call \<in> set [?call]"
    and i: "map call_id (the (tool_calls ?a)) = [''t2'']"
    by (simp_all add: chat_def)
  from inst e1 r(1) c
  have f: "\<exists>t\<in>set (takeWhile (\<lambda>t. role t = ''tool'') [?t, ?u]). tool_call_id t = Some (call_id ?call)"
    by blast
  from inst e2 r(2)
  have b: "\<exists>a calls call. nearest_non_tool [?a] = Some a \<and> role a = ''assistant'' \<and>
      tool_calls a = Some calls \<and> call \<in> set calls \<and> tool_call_id ?t = Some (call_id call)"
    by blast
  from inst have l: "list_emb pruned_from (validateOpenAIToolCalls example_messages) example_messages"
    by blast
  from e1 e2 r i f b l show ?thesis by simp
qed

text \<open>
  Claim C10. The tool-call consistency validator is idempotent: validating the output
  of the validator returns it unchanged, for every sequence of target messages.
\<close>

theorem validateOpenAIToolCalls_idempotent:
  "validateOpenAIToolCalls (validateOpenAIToolCalls ms) = validateOpenAIToolCalls ms"
  by (simp add: validateOpenAIToolCalls_from validate_from_idem)

theorem validateOpenAIToolCalls_idempotent_witness:
  "validateOpenAIToolCalls example_messages =
     [chat ''assistant'' None (Some [''t2'']) None,
      chat ''tool'' (Some ''r2'') None (Some ''t2''),
      chat ''user'' (Some ''next'') None None] \<and>
   validateOpenAIToolCalls
     [chat ''assistant'' None (Some [''t2'']) None,
      chat ''tool'' (Some ''r2'') None (Some ''t2''),
      chat ''user'' (Some ''next'') None None] =
     [chat ''assistant'' None (Some [''t2'']) None,
      chat ''tool'' (Some ''r2'') None (Some ''t2''),
      chat ''user'' (Some ''next'') None None]"
  using validateOpenAIToolCalls_idempotent [of example_messages]
  by (simp add: validate_example)

section \<open>Properties of model aliasing\<close>

lemma js_includes_Nil [simp]: "js_includes [] sub = (sub = [])"
  by (simp add: js_includes_def)

lemma js_includes_Cons:
  "js_includes (c # cs) sub = (prefix sub (c # cs) \<or> js_includes cs sub)"
  by (simp add: js_includes_def sublist_Cons_right)

lemma mapModel_loop_no_match:
  "\<forall>(keyword, target) \<in> set entries. \<not> js_includes x keyword \<Longrightarrow> mapModel_loop x entries = x"
  by (induction entries) auto

lemma mapModel_loop_first_match:
  assumes "i < length entries"
    and "js_includes x (fst (entries ! i))"
    and "\<forall>j<i. \<not> js_includes x (fst (entries ! j))"
  shows "mapModel_loop x entries = snd (entries ! i)"
  using assms
proof (induction entries arbitrary: i)
  case Nil
  then show ?case by simp
next
  case (Cons e entries)
  obtain keyword target where e: "e = (keyword, target)" by (cases e)
  show ?case
  proof (cases i)
    case 0
    with Cons.prems e show ?thesis by simp
  next
    case (Suc i')
    from Cons.prems(3) Suc have "\<not> js_includes x (fst ((e # entries) ! 0))" by blast
    then have nomatch: "\<not> js_includes x keyword" using e by simp
    have "\<forall>j<i'. \<not> js_includes x (fst (entries ! j))"
    proof (intro allI impI)
      fix j assume "j < i'"
      then have "Suc j < i" using Suc by simp
      with Cons.prems(3) have "\<not> js_includes x (fst ((e # entries) ! Suc j))" by blast
      then show "\<not> js_includes x (fst (entries ! j))" by simp
    qed
    with Cons.IH [of i'] Cons.prems Suc have "mapModel_loop x entries = snd (entries ! i')"
      by simp
    with nomatch e Suc show ?thesis by simp
  qed
qed

lemma mapModel_targets_namespaced:
  "\<forall>(keyword, target) \<in> set MODEL_MAPPING. js_includes target ''/''"
  by (simp add: MODEL_MAPPING_def js_includes_Cons)

lemma mapModel_loop_result:
  "mapModel_loop x entries = x \<or> mapModel_loop x entries \<in> snd ` set entries"
proof (induction entries)
  case Nil
  then show ?case by simp
next
  case (Cons e entries)
  obtain keyword target where "e = (keyword, target)" by (cases e)
  with Cons show ?case by (cases "js_includes x keyword") (auto simp: image_iff)
qed

text \<open>
  Claim C6. Model aliasing is total and is the identity outside the keyword table: an
  identifier that contains the separator \<open>/\<close> is returned unchanged, an identifier that
  matches no keyword of the table is returned unchanged, and aliasing is idempotent.
  (\<open>mapModel\<close> is a total function into strings: it has no error result.)
\<close>

theorem mapModel_identity_idempotent:
  "(js_includes x ''/'' \<longrightarrow> mapModel x = x) \<and>
   ((\<forall>(keyword, target) \<in> set MODEL_MAPPING. \<not> js_includes x keyword) \<longrightarrow> mapModel x = x) \<and>
   mapModel (mapModel x) = mapModel x"
proof (intro conjI impI)
  assume "js_includes x ''/''"
  then show "mapModel x = x" by (simp add: mapModel_def)
next
  assume "\<forall>(keyword, target) \<in> set MODEL_MAPPING. \<not> js_includes x keyword"
  then show "mapModel x = x" by (simp add: mapModel_def mapModel_loop_no_match)
next
  show "mapModel (mapModel x) = mapModel x"
  proof (cases "js_includes x ''/''")
    case True
    then show ?thesis by (simp add: mapModel_def)
  next
    case False
    then have m: "mapModel x = mapModel_loop x MODEL_MAPPING" by (simp add: mapModel_def)
    from mapModel_loop_result [of x MODEL_MAPPING] show ?thesis
    proof
      assume "mapModel_loop x MODEL_MAPPING = x"
      with m show ?thesis by simp
    next
      assume "mapModel_loop x MODEL_MAPPING \<in> snd ` set MODEL_MAPPING"
      with mapModel_targets_namespaced have "js_includes (mapModel_loop x MODEL_MAPPING) ''/''"
        by auto
      with m show ?thesis by (simp add: mapModel_def)
    qed
  qed
qed

theorem mapModel_identity_idempotent_witness:
  "js_includes ''custom-provider/custom-model'' ''/'' \<and>
   mapModel ''custom-provider/custom-model'' = ''custom-provider/custom-model'' \<and>
   \<not> js_includes ''gpt-4o'' ''haiku'' \<and> \<not> js_includes ''gpt-4o'' ''sonnet'' \<and>
   \<not> js_includes ''gpt-4o'' ''opus'' \<and>
   mapModel ''gpt-4o'' = ''gpt-4o'' \<and>
   mapModel ''claude-3-opus'' = ''tngtech/deepseek-r1t2-chimera:free'' \<and>
   mapModel (mapModel ''claude-3-opus'') = mapModel ''claude-3-opus''"
proof -
  have a: "js_includes ''custom-provider/custom-model'' ''/''"
    by (simp add: js_includes_Cons)
  have n: "\<not> js_includes ''gpt-4o'' ''haiku''" "\<not> js_includes ''gpt-4o'' ''sonnet''"
    "\<not> js_includes ''gpt-4o'' ''opus''"
    by (simp_all add: js_includes_Cons)
  then have b: "\<forall>(keyword, target) \<in> set MODEL_MAPPING. \<not> js_includes ''gpt-4o'' keyword"
    by (simp add: MODEL_MAPPING_def)
  have c: "mapModel ''claude-3-opus'' = ''tngtech/deepseek-r1t2-chimera:free''"
    by (simp add: mapModel_def MODEL_MAPPING_def js_includes_Cons)
  from a b c n mapModel_identity_idempotent [of "''custom-provider/custom-model''"]
    mapModel_identity_idempotent [of "''gpt-4o''"]
    mapModel_identity_idempotent [of "''claude-3-opus''"]
  show ?thesis by blast
qed

text \<open>
  Claim C7. For an identifier without the separator \<open>/\<close> that contains two or more
  keywords of the ordered table (haiku, sonnet, opus), aliasing returns the target of the
  earliest keyword, in table order, that it contains.
\<close>

theorem mapModel_first_keyword_wins:
  assumes "\<not> js_includes x ''/''"
    and "i < length MODEL_MAPPING" and "j < length MODEL_MAPPING" and "i \<noteq> j"
    and "js_includes x (fst (MODEL_MAPPING ! i))"
    and "js_includes x (fst (MODEL_MAPPING ! j))"
    and "\<forall>k<i. \<not> js_includes x (fst (MODEL_MAPPING ! k))"
  shows "map fst MODEL_MAPPING = [''haiku'', ''sonnet'', ''opus''] \<and>
         mapModel x = snd (MODEL_MAPPING ! i)"
proof
  show "map fst MODEL_MAPPING = [''haiku'', ''sonnet'', ''opus'']"
    by (simp add: MODEL_MAPPING_def)
next
  from assms(1) have "mapModel x = mapModel_loop x MODEL_MAPPING"
    by (simp add: mapModel_def)
  with mapModel_loop_first_match [OF assms(2) assms(5) assms(7)]
  show "mapModel x = snd (MODEL_MAPPING ! i)" by simp
qed

theorem mapModel_first_keyword_wins_witness:
  "\<not> js_includes ''claude-opus-sonnet'' ''/'' \<and>
   fst (MODEL_MAPPING ! 1) = ''sonnet'' \<and> fst (MODEL_MAPPING ! 2) = ''opus'' \<and>
   js_includes ''claude-opus-sonnet'' ''sonnet'' \<and>
   js_includes ''claude-opus-sonnet'' ''opus'' \<and>
   \<not> js_includes ''claude-opus-sonnet'' ''haiku'' \<and>
   mapModel ''claude-opus-sonnet'' = ''z-ai/glm-4.6:exacto''"
proof -
  have a: "\<not> js_includes ''claude-opus-sonnet'' ''/''"
    by (simp add: js_includes_Cons)
  have l: "(1::nat) < length MODEL_MAPPING" "(2::nat) < length MODEL_MAPPING" "(1::nat) \<noteq> 2"
    by (simp_all add: MODEL_MAPPING_def)
  have k: "fst (MODEL_MAPPING ! 1) = ''sonnet''" "fst (MODEL_MAPPING ! 2) = ''opus''"
    "fst (MODEL_MAPPING ! 0) = ''haiku''" "snd (MODEL_MAPPING ! 1) = ''z-ai/glm-4.6:exacto''"
    by (simp_all add: MODEL_MAPPING_def)
  have b: "js_includes ''claude-opus-sonnet'' ''sonnet''"
    by (simp add: js_includes_Cons)
  have c: "js_includes ''claude-opus-sonnet'' ''opus''"
    by (simp add: js_includes_Cons)
  have h: "\<not> js_includes ''claude-opus-sonnet'' ''haiku''"
    by (simp add: js_includes_Cons)
  then have d: "\<forall>k<1. \<not> js_includes ''claude-opus-sonnet'' (fst (MODEL_MAPPING ! k))"
    using k(3) by simp
  from b c k have b': "js_includes ''claude-opus-sonnet'' (fst (MODEL_MAPPING ! 1))"
    and c': "js_includes ''claude-opus-sonnet'' (fst (MODEL_MAPPING ! 2))" by simp_all
  from mapModel_first_keyword_wins [OF a l(1) l(2) l(3) b' c' d] a b c h k
  show ?thesis by simp
qed

section \<open>Properties of the translator\<close>

lemma validate_parts_empty_result:
  "ToolResultPart tid (ResultString []) \<in> set parts \<Longrightarrow> validate_parts index parts \<noteq> None"
proof (induction parts arbitrary: index)
  case Nil
  then show ?case by simp
next
  case (Cons part parts)
  show ?case
  proof (cases "validate_part index part")
    case (Some e)
    then show ?thesis by simp
  next
    case None
    then have "part \<noteq> ToolResultPart tid (ResultString [])"
      by (auto simp: validate_part_def split: if_splits)
    with Cons.prems have "ToolResultPart tid (ResultString []) \<in> set parts" by simp
    from Cons.IH [OF this] None show ?thesis by simp
  qed
qed

lemma validate_messages_invalid:
  "m \<in> set ms \<Longrightarrow> validateAnthropicMessage m \<noteq> None \<Longrightarrow>
   \<exists>i e. validate_messages index ms = Some (InvalidMessage i e)"
proof (induction ms arbitrary: index)
  case Nil
  then show ?case by simp
next
  case (Cons a ms)
  show ?case
  proof (cases "validateAnthropicMessage a")
    case (Some e)
    then show ?thesis by simp
  next
    case None
    with Cons.prems have "m \<in> set ms" by auto
    from Cons.IH [OF this Cons.prems(2)] None show ?thesis by simp
  qed
qed

lemma system_messages_of_append:
  "system_messages_of (xs @ ys) = system_messages_of xs @ system_messages_of ys"
  by (simp add: system_messages_of_def map_filter_def)

lemma system_messages_of_SystemMsg [simp]: "system_messages_of (map SystemMsg ss) = ss"
  by (induction ss) (simp_all add: system_messages_of_def map_filter_def)

lemma system_messages_of_ChatMsg [simp]: "system_messages_of (map ChatMsg ms) = []"
  by (induction ms) (simp_all add: system_messages_of_def map_filter_def)

lemma map_filter_append: "List.map_filter f (xs @ ys) = List.map_filter f xs @ List.map_filter f ys"
  by (simp add: map_filter_def)

lemma strip_system_messages:
  "\<forall>s\<in>set ss. system_role s = ''system'' \<Longrightarrow>
   List.map_filter strip_for_chimera (map SystemMsg ss) = map SystemMsg ss"
  by (induction ss)
     (simp_all add: List.map_filter_simps strip_for_chimera_def message_role_def)

lemma strip_chat_messages:
  "system_messages_of (List.map_filter strip_for_chimera (map ChatMsg ms)) = []"
  by (induction ms)
     (simp_all add: List.map_filter_simps strip_for_chimera_def message_role_def
        without_tool_calls_def system_messages_of_def)

lemma systemMessages_cases:
  "systemMessages mdl None = []"
  "systemMessages mdl (Some (SystemString s)) =
     [\<lparr>system_role = ''system'', system_content = [system_part mdl s]\<rparr>]"
  "systemMessages mdl (Some (SystemSegments items)) =
     map (\<lambda>item. \<lparr>system_role = ''system'',
                    system_content = [system_part mdl (segment_text item)]\<rparr>) items"
  by (simp_all add: systemMessages_def)

lemma systemMessages_role: "\<forall>s\<in>set (systemMessages mdl sys). system_role s = ''system''"
proof (cases sys)
  case None
  then show ?thesis by (simp add: systemMessages_cases)
next
  case (Some prompt)
  then show ?thesis by (cases prompt) (auto simp: systemMessages_cases)
qed

lemma systemMessages_marker:
  "\<forall>s\<in>set (systemMessages mdl sys). \<forall>part\<in>set (system_content s).
     (cache_control part = Some Ephemeral) = js_includes mdl ''claude''"
proof (cases sys)
  case None
  then show ?thesis by (simp add: systemMessages_cases)
next
  case (Some prompt)
  then show ?thesis by (cases prompt) (auto simp: systemMessages_cases system_part_def)
qed

lemma systemMessages_texts:
  "concat (map (map part_text \<circ> system_content) (systemMessages mdl sys)) = prompt_texts sys"
proof (cases sys)
  case None
  then show ?thesis by (simp add: systemMessages_cases prompt_texts_def)
next
  case (Some prompt)
  then show ?thesis
  proof (cases prompt)
    case (SystemString s)
    with Some show ?thesis by (simp add: systemMessages_cases prompt_texts_def system_part_def)
  next
    case (SystemSegments items)
    have "concat (map (\<lambda>item. [segment_text item]) items) = map segment_text items"
      by (induction items) simp_all
    with Some SystemSegments show ?thesis
      by (simp add: systemMessages_cases prompt_texts_def system_part_def comp_def)
  qed
qed

lemma format_system_messages:
  assumes "formatAnthropicToOpenAI stringify body = Inr p"
  shows "system_messages_of (data_messages p) = systemMessages (model body) (system body)"
proof -
  from assms obtain openAIMessages where
    p: "data_messages p =
         (if mapModel (model body) = ''tngtech/deepseek-r1t2-chimera:free''
          then List.map_filter strip_for_chimera
                 (map SystemMsg (systemMessages (model body) (system body)) @
                  map ChatMsg openAIMessages)
          else map SystemMsg (systemMessages (model body) (system body)) @
               map ChatMsg (validateOpenAIToolCalls openAIMessages))"
    by (auto simp: formatAnthropicToOpenAI_def Let_def split: if_splits option.splits sum.splits)
  show ?thesis
    unfolding p
    by (simp add: map_filter_append system_messages_of_append strip_chat_messages
          strip_system_messages [OF systemMessages_role])
qed

lemma format_model:
  "formatAnthropicToOpenAI stringify body = Inr p \<Longrightarrow> data_model p = mapModel (model body)"
  by (auto simp: formatAnthropicToOpenAI_def Let_def split: if_splits option.splits sum.splits)

lemma strip_for_chimera_result:
  "strip_for_chimera x = Some y \<Longrightarrow>
   message_role y \<noteq> ''tool'' \<and> (message_role y = ''assistant'' \<longrightarrow> message_tool_calls y = None)"
  by (cases x)
     (auto simp: strip_for_chimera_def message_role_def message_tool_calls_def
        without_tool_calls_def split: if_splits)

lemma set_map_filter: "set (List.map_filter f xs) = {y. \<exists>x\<in>set xs. f x = Some y}"
  by (force simp: map_filter_def image_iff)

lemma strip_incoming_message_result:
  "strip_incoming_message x = Some y \<Longrightarrow>
   role y \<noteq> ''tool'' \<and> (role y = ''assistant'' \<longrightarrow> tool_calls y = None)"
  by (auto simp: strip_incoming_message_def split: if_splits)

section \<open>Assistant messages on the validator path\<close>

lemma validate_messages_all_valid:
  "validate_messages index ms = None \<Longrightarrow> \<forall>m\<in>set ms. validateAnthropicMessage m = None"
  by (induction ms arbitrary: index) (auto split: option.splits)

lemma user_parts_tool_messages:
  "user_parts stringify parts text_acc acc = Inr (text_out, acc') \<Longrightarrow>
   \<forall>m\<in>set acc. role m = ''tool'' \<Longrightarrow> \<forall>m\<in>set acc'. role m = ''tool''"
proof (induction parts arbitrary: text_acc acc)
  case Nil
  then show ?case by simp
next
  case (Cons part parts)
  show ?case
  proof (cases part)
    case (TextPart t)
    with Cons.prems Cons.IH [of "text_acc @ t @ [CHR 0x0A]" acc] show ?thesis by simp
  next
    case (ToolUsePart ident name input)
    with Cons.prems Cons.IH [of text_acc acc] show ?thesis by simp
  next
    case (ToolResultPart tid c)
    with Cons.prems obtain s where
      "user_parts stringify parts text_acc
         (acc @ [\<lparr>role = ''tool'', content = Some s, tool_calls = None,
                  tool_call_id = Some tid\<rparr>]) = Inr (text_out, acc')"
      by (auto split: sum.splits)
    from Cons.IH [OF this] Cons.prems(2) show ?thesis by simp
  next
    case (OtherPart tag)
    with Cons.prems Cons.IH [of text_acc acc] show ?thesis by simp
  qed
qed

lemma expand_message_informative:
  assumes "validateAnthropicMessage msg = None" and "expand_message stringify msg = Inr out"
  shows "\<forall>m\<in>set out. informative m"
proof (cases "msg_content msg")
  case (StringContent s)
  with assms(1) have "s \<noteq> []"
    by (auto simp: validateAnthropicMessage_def split: if_splits)
  with assms(2) StringContent show ?thesis
    by (auto simp: expand_message_def informative_def truthy_def)
next
  case (PartsContent parts)
  show ?thesis
  proof (cases "msg_role msg = ''assistant''")
    case True
    with assms(2) PartsContent show ?thesis
      by (auto simp: expand_message_def informative_def Let_def
               split: sum.splits prod.splits if_splits)
  next
    case False
    show ?thesis
    proof (cases "msg_role msg = ''user''")
      case True
      with assms(2) PartsContent False obtain text_acc acc where
        u: "user_parts stringify parts [] [] = Inr (text_acc, acc)"
        and o: "out = (if length (trim text_acc) > 0
                       then [\<lparr>role = ''user'', content = Some (trim text_acc),
                               tool_calls = None, tool_call_id = None\<rparr>]
                       else []) @ acc"
        by (auto simp: expand_message_def Let_def split: sum.splits prod.splits)
      from user_parts_tool_messages [OF u] have "\<forall>m\<in>set acc. role m = ''tool''" by simp
      with o show ?thesis by (auto simp: informative_def)
    next
      case notuser: False
      with assms(2) PartsContent False show ?thesis
        by (simp add: expand_message_def)
    qed
  qed
qed

lemma expand_messages_informative:
  "\<forall>m\<in>set ms. validateAnthropicMessage m = None \<Longrightarrow>
   expand_messages stringify ms = Inr out \<Longrightarrow> \<forall>m\<in>set out. informative m"
proof (induction ms arbitrary: out)
  case Nil
  then show ?case by simp
next
  case (Cons a ms)
  from Cons.prems(2) obtain fromThis fromRest where
    a: "expand_message stringify a = Inr fromThis"
    and r: "expand_messages stringify ms = Inr fromRest"
    and o: "out = fromThis @ fromRest"
    by (auto split: sum.splits)
  from Cons.prems(1) have "validateAnthropicMessage a = None" by simp
  from expand_message_informative [OF this a] have "\<forall>m\<in>set fromThis. informative m" .
  moreover from Cons.IH [OF _ r] Cons.prems(1) have "\<forall>m\<in>set fromRest. informative m" by simp
  ultimately show ?case using o by auto
qed

lemma emit_informative:
  "informative m \<Longrightarrow> emit m run = [m'] \<Longrightarrow> informative m'"
  by (auto simp: emit_def updateAssistant_eq informative_def
           split: option.splits bool.splits if_splits)

lemma validate_from_informative:
  "\<forall>m\<in>set ms. informative m \<Longrightarrow> \<forall>m\<in>set (validate_from c ms). informative m"
proof (induction ms arbitrary: c)
  case Nil
  then show ?case by simp
next
  case (Cons a ms)
  from Cons.prems have a: "informative a" and r: "\<forall>m\<in>set ms. informative m" by simp_all
  show ?case
  proof (cases "role a = ''tool''")
    case True
    with Cons.IH [OF r, of c] a show ?thesis by auto
  next
    case False
    from emit_cases [of a "takeWhile (\<lambda>t. role t = ''tool'') ms"] show ?thesis
    proof (elim disjE exE conjE)
      assume "emit a (takeWhile (\<lambda>t. role t = ''tool'') ms) = []"
      with False Cons.IH [OF r, of "Some a"] show ?thesis by simp
    next
      fix m' assume e: "emit a (takeWhile (\<lambda>t. role t = ''tool'') ms) = [m']"
      from emit_informative [OF a e] e False Cons.IH [OF r, of "Some a"] show ?thesis by simp
    qed
  qed
qed

lemma validator_path_assistant_informative:
  assumes "formatAnthropicToOpenAI stringify body = Inr p"
    and "mapModel (model body) \<noteq> ''tngtech/deepseek-r1t2-chimera:free''"
  shows "\<forall>m. ChatMsg m \<in> set (data_messages p) \<longrightarrow> informative m"
proof -
  from assms obtain openAIMessages where
    v: "validate_messages 0 (messages body) = None"
    and e: "expand_messages stringify (messages body) = Inr openAIMessages"
    and p: "data_messages p =
              map SystemMsg (systemMessages (model body) (system body)) @
              map ChatMsg (validateOpenAIToolCalls openAIMessages)"
    by (auto simp: formatAnthropicToOpenAI_def Let_def split: if_splits option.splits sum.splits)
  from expand_messages_informative [OF validate_messages_all_valid [OF v] e]
  have "\<forall>m\<in>set openAIMessages. informative m" .
  from validate_from_informative [OF this, of None]
  have "\<forall>m\<in>set (validateOpenAIToolCalls openAIMessages). informative m"
    by (simp add: validateOpenAIToolCalls_from)
  with p show ?thesis by auto
qed

section \<open>The messages of role system in the output\<close>

lemma system_role_messages_Cons:
  "system_role_messages (m # ms) = system_role_messages [m] @ system_role_messages ms"
  by (simp add: system_role_messages_def)

lemma system_role_messages_Nil [simp]: "system_role_messages [] = []"
  by (simp add: system_role_messages_def)

lemma expand_message_system:
  assumes "expand_message stringify m = Inr out"
  shows "filter (\<lambda>x. role x = ''system'') out = system_role_messages [m]"
proof (cases "msg_content m")
  case (StringContent s)
  with assms show ?thesis
    by (auto simp: expand_message_def system_role_messages_def)
next
  case (PartsContent parts)
  show ?thesis
  proof (cases "msg_role m = ''assistant''")
    case True
    with assms PartsContent show ?thesis
      by (auto simp: expand_message_def system_role_messages_def Let_def
               split: sum.splits prod.splits if_splits)
  next
    case False
    show ?thesis
    proof (cases "msg_role m = ''user''")
      case True
      with assms PartsContent False obtain text_acc acc where
        u: "user_parts stringify parts [] [] = Inr (text_acc, acc)"
        and o: "out = (if length (trim text_acc) > 0
                       then [\<lparr>role = ''user'', content = Some (trim text_acc),
                               tool_calls = None, tool_call_id = None\<rparr>]
                       else []) @ acc"
        by (auto simp: expand_message_def Let_def split: sum.splits prod.splits)
      from user_parts_tool_messages [OF u] have "\<forall>x\<in>set acc. role x = ''tool''" by simp
      then have "filter (\<lambda>x. role x = ''system'') acc = []"
        by (auto simp: filter_empty_conv)
      with o PartsContent show ?thesis
        by (simp add: system_role_messages_def)
    next
      case notuser: False
      with assms PartsContent False show ?thesis
        by (auto simp: expand_message_def system_role_messages_def)
    qed
  qed
qed

lemma expand_messages_system:
  "expand_messages stringify ms = Inr out \<Longrightarrow>
   filter (\<lambda>x. role x = ''system'') out = system_role_messages ms"
proof (induction ms arbitrary: out)
  case Nil
  then show ?case by simp
next
  case (Cons a ms)
  from Cons.prems obtain fromThis fromRest where
    a: "expand_message stringify a = Inr fromThis"
    and r: "expand_messages stringify ms = Inr fromRest"
    and o: "out = fromThis @ fromRest"
    by (auto split: sum.splits)
  from expand_message_system [OF a] Cons.IH [OF r] o show ?case
    by (simp add: system_role_messages_Cons [of a ms])
qed

lemma emit_system:
  "filter (\<lambda>x. role x = ''system'') (emit m run) = filter (\<lambda>x. role x = ''system'') [m]"
  by (auto simp: emit_def updateAssistant_eq split: option.splits bool.splits)

lemma validate_from_system:
  "filter (\<lambda>x. role x = ''system'') (validate_from c ms) = filter (\<lambda>x. role x = ''system'') ms"
proof (induction ms arbitrary: c)
  case Nil
  then show ?case by simp
next
  case (Cons m ms)
  show ?case
  proof (cases "role m = ''tool''")
    case True
    with Cons [of c] show ?thesis by simp
  next
    case False
    with Cons [of "Some m"] emit_system [of m "takeWhile (\<lambda>t. role t = ''tool'') ms"]
    show ?thesis by simp
  qed
qed

lemma strip_for_chimera_system:
  "filter (\<lambda>x. message_role x = ''system'') (List.map_filter strip_for_chimera xs) =
     filter (\<lambda>x. message_role x = ''system'') xs"
proof (induction xs)
  case Nil
  then show ?case by (simp add: List.map_filter_simps)
next
  case (Cons x xs)
  then show ?case
    by (cases x)
       (auto simp: List.map_filter_simps strip_for_chimera_def message_role_def
          message_tool_calls_def without_tool_calls_def)
qed

lemma filter_system_ChatMsg:
  "filter (\<lambda>x. message_role x = ''system'') (map ChatMsg ms) =
     map ChatMsg (filter (\<lambda>x. role x = ''system'') ms)"
  by (induction ms) (simp_all add: message_role_def)

lemma filter_system_SystemMsg:
  "\<forall>s\<in>set ss. system_role s = ''system'' \<Longrightarrow>
   filter (\<lambda>x. message_role x = ''system'') (map SystemMsg ss) = map SystemMsg ss"
  by (induction ss) (simp_all add: message_role_def)

lemma system_role_messages_contents:
  "map content (system_role_messages ms) =
     concat (map (\<lambda>m. case msg_content m of
                        StringContent s \<Rightarrow> if msg_role m = ''system'' then [Some s] else []
                      | PartsContent parts \<Rightarrow> []) ms)"
proof (induction ms)
  case Nil
  then show ?case by simp
next
  case (Cons m ms)
  have "map content (system_role_messages [m]) =
          (case msg_content m of
             StringContent s \<Rightarrow> if msg_role m = ''system'' then [Some s] else []
           | PartsContent parts \<Rightarrow> [])"
    by (simp add: system_role_messages_def split: AnthropicContent.splits)
  with Cons show ?case
    by (simp add: system_role_messages_Cons [of m ms])
qed

lemma format_system_role_messages:
  assumes "formatAnthropicToOpenAI stringify body = Inr p"
  shows "filter (\<lambda>m. message_role m = ''system'') (data_messages p) =
           map SystemMsg (systemMessages (model body) (system body)) @
           map ChatMsg (system_role_messages (messages body))"
proof -
  from assms obtain openAIMessages where
    e: "expand_messages stringify (messages body) = Inr openAIMessages"
    and p: "data_messages p =
         (if mapModel (model body) = ''tngtech/deepseek-r1t2-chimera:free''
          then List.map_filter strip_for_chimera
                 (map SystemMsg (systemMessages (model body) (system body)) @
                  map ChatMsg openAIMessages)
          else map SystemMsg (systemMessages (model body) (system body)) @
               map ChatMsg (validateOpenAIToolCalls openAIMessages))"
    by (auto simp: formatAnthropicToOpenAI_def Let_def split: if_splits option.splits sum.splits)
  show ?thesis
    unfolding p
    by (simp add: strip_for_chimera_system filter_system_ChatMsg
          filter_system_SystemMsg [OF systemMessages_role] validateOpenAIToolCalls_from
          validate_from_system expand_messages_system [OF e])
qed

section \<open>The translator on the example requests\<close>

lemma trim_empty: "trim [] = []"
  by (simp add: trim_def strip_leading.simps white_space_def)

lemmas format_eval =
  formatAnthropicToOpenAI_def mapModel_def MODEL_MAPPING_def js_includes_Cons
  validateAnthropicMessage_def validate_part_def expand_message_def safeJsonStringify_def
  trim_empty truthy_def systemMessages_def system_part_def
  modelProviderConfigs_def get_property_def truthy_property_def truthy_json_def
  Object_prototype_names_def
  strip_for_chimera_def message_role_def message_tool_calls_def without_tool_calls_def
  convert_tool_def validateOpenAIToolCalls_def validate_step_def updateAssistant_def
  hasImmediateToolCall_def immediateToolMessages_def toolMessageMap_def map_has_def
  toolCallIds_has_def

lemma mapModel_opus: "mapModel ''claude-3-opus'' = ''tngtech/deepseek-r1t2-chimera:free''"
  by (simp add: mapModel_def MODEL_MAPPING_def js_includes_Cons)

lemma format_opus_request: "formatAnthropicToOpenAI Some opus_request = Inr opus_payload"
  by (simp add: format_eval opus_request_def opus_payload_def)

lemma format_plain_request:
  "formatAnthropicToOpenAI Some plain_request =
     Inr \<lparr>data_model = ''gpt-4o'', data_messages = [], data_temperature = None,
          data_stream = None, data_provider = None,
          data_tools =
            Some [\<lparr>tool_type = ''function'',
                   tool_function = \<lparr>decl_name = ''search'', decl_description = ''web search'',
                                    decl_parameters = ''{}''\<rparr>\<rparr>]\<rparr>"
  by (simp add: format_eval plain_request_def opus_request_def)

lemma format_segments_request:
  "map_sum id data_messages (formatAnthropicToOpenAI Some segments_request) =
     Inr [SystemMsg \<lparr>system_role = ''system'',
                     system_content = [\<lparr>part_type = ''text'', part_text = ''one'',
                                        cache_control = Some Ephemeral\<rparr>]\<rparr>,
          SystemMsg \<lparr>system_role = ''system'',
                     system_content = [\<lparr>part_type = ''text'', part_text = ''two'',
                                        cache_control = Some Ephemeral\<rparr>]\<rparr>]"
  by (simp add: format_eval segments_request_def opus_request_def)

section \<open>Claims about the translator\<close>

lemma format_system_chat_request:
  "map_sum id data_messages (formatAnthropicToOpenAI Some system_chat_request) =
     Inr [SystemMsg \<lparr>system_role = ''system'',
                     system_content = [\<lparr>part_type = ''text'', part_text = ''be brief'',
                                        cache_control = None\<rparr>]\<rparr>,
          ChatMsg \<lparr>role = ''system'', content = Some ''extra rules'', tool_calls = None,
                   tool_call_id = None\<rparr>,
          ChatMsg \<lparr>role = ''user'', content = Some ''hello'', tool_calls = None,
                   tool_call_id = None\<rparr>]"
  by (simp add: format_eval system_chat_request_def opus_request_def upt_conv_Cons)

text \<open>
  Claim C1 (content emptiness invariant). The claim: on every path, the stripping path
  for the model without tool support included, no assistant message of the returned
  payload has both null content and no invocation list. The validator path keeps this
  (\<open>validator_path_assistant_informative\<close>). The stripping path does not: for the
  request \<open>opus_request\<close>, whose only message is an assistant message that only invokes
  a tool, the translator returns \<open>opus_payload\<close>, which holds an assistant message with
  null content and no invocation list.
\<close>

theorem chimera_strip_leaves_empty_assistant:
  "mapModel (model opus_request) = ''tngtech/deepseek-r1t2-chimera:free'' \<and>
   formatAnthropicToOpenAI Some opus_request = Inr opus_payload \<and>
   ChatMsg \<lparr>role = ''assistant'', content = None, tool_calls = None, tool_call_id = None\<rparr>
     \<in> set (data_messages opus_payload)"
  using format_opus_request mapModel_opus
  by (simp add: opus_request_def opus_payload_def)

text \<open>
  Claim C3. For every conversation whose aliased model is the model without tool
  support, the returned payload has no \<open>tools\<close> field, its messages hold no tool
  message, and no assistant message carries an invocation list, whatever declarations
  and invocations the request holds. The same holds of the request body that the
  OpenAI-compatible handler forwards.
\<close>

theorem chimera_payload_has_no_tools:
  "(mapModel (model body) = ''tngtech/deepseek-r1t2-chimera:free'' \<and>
    formatAnthropicToOpenAI stringify body = Inr p \<longrightarrow>
      data_tools p = None \<and>
      (\<forall>m\<in>set (data_messages p).
         message_role m \<noteq> ''tool'' \<and>
         (message_role m = ''assistant'' \<longrightarrow> message_tool_calls m = None))) \<and>
   (incoming_model incoming = Some mdl \<and>
    mapModel mdl = ''tngtech/deepseek-r1t2-chimera:free'' \<longrightarrow>
      incoming_tools (strip_incoming incoming) = None \<and>
      (\<forall>ms. incoming_messages (strip_incoming incoming) = Some ms \<longrightarrow>
         (\<forall>m\<in>set ms. role m \<noteq> ''tool'' \<and> (role m = ''assistant'' \<longrightarrow> tool_calls m = None))))"
proof (intro conjI impI)
  assume a: "mapModel (model body) = ''tngtech/deepseek-r1t2-chimera:free'' \<and>
    formatAnthropicToOpenAI stringify body = Inr p"
  then obtain openAIMessages where
    p: "data_messages p = List.map_filter strip_for_chimera
                 (map SystemMsg (systemMessages (model body) (system body)) @
                  map ChatMsg openAIMessages)"
    and t: "data_tools p = None"
    by (auto simp: formatAnthropicToOpenAI_def Let_def split: if_splits option.splits sum.splits)
  from t show "data_tools p = None" .
  show "\<forall>m\<in>set (data_messages p).
         message_role m \<noteq> ''tool'' \<and>
         (message_role m = ''assistant'' \<longrightarrow> message_tool_calls m = None)"
    unfolding p set_map_filter using strip_for_chimera_result by blast
next
  assume a: "incoming_model incoming = Some mdl \<and>
    mapModel mdl = ''tngtech/deepseek-r1t2-chimera:free''"
  then show "incoming_tools (strip_incoming incoming) = None"
    by (simp add: strip_incoming_def)
  from a have "incoming_messages (strip_incoming incoming) =
      map_option (List.map_filter strip_incoming_message) (incoming_messages incoming)"
    by (simp add: strip_incoming_def)
  then show "\<forall>ms. incoming_messages (strip_incoming incoming) = Some ms \<longrightarrow>
         (\<forall>m\<in>set ms. role m \<noteq> ''tool'' \<and> (role m = ''assistant'' \<longrightarrow> tool_calls m = None))"
    using strip_incoming_message_result by (auto simp: set_map_filter)
qed

theorem chimera_payload_has_no_tools_witness:
  "mapModel (model opus_request) = ''tngtech/deepseek-r1t2-chimera:free'' \<and>
   formatAnthropicToOpenAI Some opus_request = Inr opus_payload \<and>
   tools opus_request \<noteq> None \<and>
   data_tools opus_payload = None \<and>
   map message_role (data_messages opus_payload) = [''system'', ''assistant''] \<and>
   map message_tool_calls (data_messages opus_payload) = [None, None] \<and>
   incoming_model bare_incoming = Some ''claude-3-opus'' \<and>
   mapModel ''claude-3-opus'' = ''tngtech/deepseek-r1t2-chimera:free'' \<and>
   incoming_tools (strip_incoming bare_incoming) = None \<and>
   incoming_messages (strip_incoming bare_incoming) =
     Some [chat ''assistant'' None None None, chat ''user'' (Some ''next'') None None]"
proof -
  have m: "mapModel (model opus_request) = ''tngtech/deepseek-r1t2-chimera:free''"
    using mapModel_opus by (simp add: opus_request_def)
  have i: "incoming_model bare_incoming = Some ''claude-3-opus''"
    by (simp add: bare_incoming_def)
  have s: "incoming_messages (strip_incoming bare_incoming) =
     Some [chat ''assistant'' None None None, chat ''user'' (Some ''next'') None None]"
    using mapModel_opus
    by (simp add: strip_incoming_def bare_incoming_def example_messages_def chat_def
          strip_incoming_message_def)
  have t: "tools opus_request \<noteq> None" by (simp add: opus_request_def)
  have r: "map message_role (data_messages opus_payload) = [''system'', ''assistant'']"
    "map message_tool_calls (data_messages opus_payload) = [None, None]"
    by (simp_all add: opus_payload_def message_role_def message_tool_calls_def)
  from chimera_payload_has_no_tools
         [of opus_request Some opus_payload bare_incoming "''claude-3-opus''"]
       m format_opus_request i mapModel_opus
  have "data_tools opus_payload = None" "incoming_tools (strip_incoming bare_incoming) = None"
    by blast+
  with m format_opus_request i mapModel_opus s t r show ?thesis by simp
qed

text \<open>
  Claim C4, as stated: each system text part of the output carries the ephemeral-cache
  marker if and only if the aliased target model belongs to the prompt-caching family
  (its identifier contains \<open>claude\<close>). It fails for the request \<open>opus_request\<close>: the
  aliased model of \<open>claude-3-opus\<close> does not contain \<open>claude\<close>, yet the system part
  carries the marker.
\<close>

theorem cache_marker_target_counterexample:
  "formatAnthropicToOpenAI Some opus_request = Inr opus_payload \<and>
   data_model opus_payload = mapModel (model opus_request) \<and>
   \<not> js_includes (data_model opus_payload) ''claude'' \<and>
   map cache_control (concat (map system_content (system_messages_of (data_messages opus_payload))))
     = [Some Ephemeral]"
  using format_opus_request mapModel_opus
  by (simp add: opus_request_def opus_payload_def js_includes_Cons system_messages_of_def)

text \<open>
  Claim C4, amended. Each system text part of the output carries the ephemeral-cache
  marker if and only if the model identifier of the request, before aliasing, contains
  \<open>claude\<close>; when the aliased model contains \<open>claude\<close>, so does the model of the request.
  The texts of the system parts are the texts of the system prompt, whatever the marker.
\<close>

theorem cache_marker_by_source_model:
  assumes "formatAnthropicToOpenAI stringify body = Inr p"
  shows "(\<forall>s\<in>set (system_messages_of (data_messages p)). \<forall>part\<in>set (system_content s).
            (cache_control part = Some Ephemeral) = js_includes (model body) ''claude'') \<and>
         (js_includes (data_model p) ''claude'' \<longrightarrow> js_includes (model body) ''claude'') \<and>
         concat (map (map part_text \<circ> system_content) (system_messages_of (data_messages p))) =
           prompt_texts (system body)"
proof (intro conjI)
  show "\<forall>s\<in>set (system_messages_of (data_messages p)). \<forall>part\<in>set (system_content s).
            (cache_control part = Some Ephemeral) = js_includes (model body) ''claude''"
    unfolding format_system_messages [OF assms] by (rule systemMessages_marker)
next
  have "mapModel x = x \<or> \<not> js_includes (mapModel x) ''claude''" for x
  proof (cases "js_includes x ''/''")
    case True
    then show ?thesis by (simp add: mapModel_def)
  next
    case False
    then show ?thesis
      by (simp add: mapModel_def MODEL_MAPPING_def js_includes_Cons)
  qed
  then show "js_includes (data_model p) ''claude'' \<longrightarrow> js_includes (model body) ''claude''"
    unfolding format_model [OF assms] by metis
next
  show "concat (map (map part_text \<circ> system_content) (system_messages_of (data_messages p))) =
           prompt_texts (system body)"
    unfolding format_system_messages [OF assms] by (rule systemMessages_texts)
qed

theorem cache_marker_by_source_model_witness:
  "\<exists>p. formatAnthropicToOpenAI Some segments_request = Inr p \<and>
       js_includes (model segments_request) ''claude'' \<and>
       map cache_control (concat (map system_content (system_messages_of (data_messages p)))) =
         [Some Ephemeral, Some Ephemeral] \<and>
       prompt_texts (system segments_request) = [''one'', ''two''] \<and>
       concat (map (map part_text \<circ> system_content) (system_messages_of (data_messages p))) =
         [''one'', ''two'']"
proof -
  from format_segments_request obtain p where
    p: "formatAnthropicToOpenAI Some segments_request = Inr p"
    and d: "data_messages p =
      [SystemMsg \<lparr>system_role = ''system'',
                  system_content = [\<lparr>part_type = ''text'', part_text = ''one'',
                                     cache_control = Some Ephemeral\<rparr>]\<rparr>,
       SystemMsg \<lparr>system_role = ''system'',
                  system_content = [\<lparr>part_type = ''text'', part_text = ''two'',
                                     cache_control = Some Ephemeral\<rparr>]\<rparr>]"
    by (cases "formatAnthropicToOpenAI Some segments_request") auto
  have c: "js_includes (model segments_request) ''claude''"
    by (simp add: segments_request_def js_includes_Cons)
  have t: "prompt_texts (system segments_request) = [''one'', ''two'']"
    by (simp add: segments_request_def prompt_texts_def)
  have k: "map cache_control (concat (map system_content (system_messages_of (data_messages p)))) =
         [Some Ephemeral, Some Ephemeral]"
    by (simp add: d system_messages_of_def)
  from cache_marker_by_source_model [OF p] t
  have "concat (map (map part_text \<circ> system_content) (system_messages_of (data_messages p))) =
         [''one'', ''two'']"
    by simp
  with p c t k show ?thesis by - (rule exI [of _ p], simp)
qed

text \<open>
  Claim C5, as stated: a system prompt that is a single value, be it a string, absent or
  empty, gives exactly one system message. It fails when the prompt is absent: the
  request \<open>plain_request\<close> has no system prompt and is accepted, and the payload holds no
  system message, be it a message built from the prompt or any message of role
  \<open>system\<close>.
\<close>

theorem absent_system_prompt_counterexample:
  "system plain_request = None \<and>
   map_sum id (\<lambda>p. system_messages_of (data_messages p))
     (formatAnthropicToOpenAI Some plain_request) = Inr [] \<and>
   map_sum id (\<lambda>p. filter (\<lambda>m. message_role m = ''system'') (data_messages p))
     (formatAnthropicToOpenAI Some plain_request) = Inr []"
  using format_plain_request
  by (simp add: plain_request_def system_messages_of_def)

text \<open>
  Claim C5, amended. The messages of role \<open>system\<close> in the output are, in order, the
  messages built from the system prompt, followed by one message for each source message
  that has role \<open>system\<close> and string content, with that content. The messages built from
  the prompt are: if the prompt is a sequence of segments, exactly one per segment, in
  order, each with one text part that carries the text of its segment; if it is a string
  (the empty string included), exactly one, whose one text part carries the string; if
  it is absent, none. So for a conversation none of whose messages has role \<open>system\<close>
  the output holds exactly one system message per segment, exactly one for a string and
  none for an absent prompt.
\<close>

theorem system_messages_by_prompt:
  assumes "formatAnthropicToOpenAI stringify body = Inr p"
  shows "(\<forall>items. system body = Some (SystemSegments items) \<longrightarrow>
            (\<exists>built. length built = length items \<and>
               (\<forall>i<length items.
                  system_role (built ! i) = ''system'' \<and>
                  map part_text (system_content (built ! i)) = [segment_text (items ! i)]) \<and>
               filter (\<lambda>m. message_role m = ''system'') (data_messages p) =
                 map SystemMsg built @ map ChatMsg (system_role_messages (messages body)))) \<and>
         (\<forall>s. system body = Some (SystemString s) \<longrightarrow>
            (\<exists>built. system_role built = ''system'' \<and>
               map part_text (system_content built) = [s] \<and>
               filter (\<lambda>m. message_role m = ''system'') (data_messages p) =
                 SystemMsg built # map ChatMsg (system_role_messages (messages body)))) \<and>
         (system body = None \<longrightarrow>
            filter (\<lambda>m. message_role m = ''system'') (data_messages p) =
              map ChatMsg (system_role_messages (messages body))) \<and>
         ((\<forall>m\<in>set (messages body). msg_role m \<noteq> ''system'') \<longrightarrow>
            system_role_messages (messages body) = []) \<and>
         map content (system_role_messages (messages body)) =
           concat (map (\<lambda>m. case msg_content m of
                              StringContent s \<Rightarrow> if msg_role m = ''system'' then [Some s] else []
                            | PartsContent parts \<Rightarrow> []) (messages body))"
proof (intro conjI allI impI)
  fix items assume s: "system body = Some (SystemSegments items)"
  show "\<exists>built. length built = length items \<and>
               (\<forall>i<length items.
                  system_role (built ! i) = ''system'' \<and>
                  map part_text (system_content (built ! i)) = [segment_text (items ! i)]) \<and>
               filter (\<lambda>m. message_role m = ''system'') (data_messages p) =
                 map SystemMsg built @ map ChatMsg (system_role_messages (messages body))"
    by (rule exI [of _ "systemMessages (model body) (system body)"])
       (simp add: format_system_role_messages [OF assms] s systemMessages_cases system_part_def)
next
  fix s assume s: "system body = Some (SystemString s)"
  show "\<exists>built. system_role built = ''system'' \<and>
               map part_text (system_content built) = [s] \<and>
               filter (\<lambda>m. message_role m = ''system'') (data_messages p) =
                 SystemMsg built # map ChatMsg (system_role_messages (messages body))"
    by (rule exI [of _ "\<lparr>system_role = ''system'',
                          system_content = [system_part (model body) s]\<rparr>"])
       (simp add: format_system_role_messages [OF assms] s systemMessages_cases system_part_def)
next
  assume "system body = None"
  then show "filter (\<lambda>m. message_role m = ''system'') (data_messages p) =
              map ChatMsg (system_role_messages (messages body))"
    by (simp add: format_system_role_messages [OF assms] systemMessages_cases)
next
  assume "\<forall>m\<in>set (messages body). msg_role m \<noteq> ''system''"
  then show "system_role_messages (messages body) = []"
    by (auto simp: system_role_messages_def split: AnthropicContent.splits)
next
  show "map content (system_role_messages (messages body)) =
           concat (map (\<lambda>m. case msg_content m of
                              StringContent s \<Rightarrow> if msg_role m = ''system'' then [Some s] else []
                            | PartsContent parts \<Rightarrow> []) (messages body))"
    by (rule system_role_messages_contents)
qed

theorem system_messages_by_prompt_witness:
  "(\<exists>p built. formatAnthropicToOpenAI Some segments_request = Inr p \<and>
        system segments_request =
          Some (SystemSegments [\<lparr>segment_text = ''one''\<rparr>, \<lparr>segment_text = ''two''\<rparr>]) \<and>
        length built = 2 \<and>
        map part_text (system_content (built ! 0)) = [''one''] \<and>
        map part_text (system_content (built ! 1)) = [''two''] \<and>
        system_role_messages (messages segments_request) = [] \<and>
        filter (\<lambda>m. message_role m = ''system'') (data_messages p) = map SystemMsg built) \<and>
   (\<exists>p built. formatAnthropicToOpenAI Some system_chat_request = Inr p \<and>
        system system_chat_request = Some (SystemString ''be brief'') \<and>
        map part_text (system_content built) = [''be brief''] \<and>
        filter (\<lambda>m. message_role m = ''system'') (data_messages p) =
          [SystemMsg built,
           ChatMsg \<lparr>role = ''system'', content = Some ''extra rules'', tool_calls = None,
                    tool_call_id = None\<rparr>]) \<and>
   (\<exists>p. formatAnthropicToOpenAI Some plain_request = Inr p \<and>
        system plain_request = None \<and>
        filter (\<lambda>m. message_role m = ''system'') (data_messages p) = [])"
proof -
  from format_segments_request obtain p where
    p: "formatAnthropicToOpenAI Some segments_request = Inr p"
    by (cases "formatAnthropicToOpenAI Some segments_request") auto
  have s: "system segments_request =
          Some (SystemSegments [\<lparr>segment_text = ''one''\<rparr>, \<lparr>segment_text = ''two''\<rparr>])"
    by (simp add: segments_request_def)
  have ns: "\<forall>m\<in>set (messages segments_request). msg_role m \<noteq> ''system''"
    by (simp add: segments_request_def opus_request_def)
  note inst = system_messages_by_prompt [OF p]
  have e: "system_role_messages (messages segments_request) = []"
    by (rule inst [THEN conjunct2, THEN conjunct2, THEN conjunct2, THEN conjunct1, THEN mp,
                   OF ns])
  from inst [THEN conjunct1, THEN spec, THEN mp, OF s] obtain built where
    l': "length built = length [\<lparr>segment_text = ''one''\<rparr>, \<lparr>segment_text = ''two''\<rparr>]"
    and t: "\<forall>i<length [\<lparr>segment_text = ''one''\<rparr>, \<lparr>segment_text = ''two''\<rparr>].
              system_role (built ! i) = ''system'' \<and>
              map part_text (system_content (built ! i)) =
                [segment_text ([\<lparr>segment_text = ''one''\<rparr>, \<lparr>segment_text = ''two''\<rparr>] ! i)]"
    and f: "filter (\<lambda>m. message_role m = ''system'') (data_messages p) =
              map SystemMsg built @ map ChatMsg (system_role_messages (messages segments_request))"
    by (elim exE conjE) (rule that)
  from l' have l: "length built = 2" by simp
  from t [THEN spec, of 0] have t0: "map part_text (system_content (built ! 0)) = [''one'']"
    by simp
  from t [THEN spec, of 1] have t1: "map part_text (system_content (built ! 1)) = [''two'']"
    by simp
  from p s l t0 t1 e f have first:
    "\<exists>p built. formatAnthropicToOpenAI Some segments_request = Inr p \<and>
        system segments_request =
          Some (SystemSegments [\<lparr>segment_text = ''one''\<rparr>, \<lparr>segment_text = ''two''\<rparr>]) \<and>
        length built = 2 \<and>
        map part_text (system_content (built ! 0)) = [''one''] \<and>
        map part_text (system_content (built ! 1)) = [''two''] \<and>
        system_role_messages (messages segments_request) = [] \<and>
        filter (\<lambda>m. message_role m = ''system'') (data_messages p) = map SystemMsg built"
    by - (rule exI [of _ p], rule exI [of _ built], simp)
  from format_system_chat_request obtain q where
    q: "formatAnthropicToOpenAI Some system_chat_request = Inr q"
    by (cases "formatAnthropicToOpenAI Some system_chat_request") auto
  have sq: "system system_chat_request = Some (SystemString ''be brief'')"
    by (simp add: system_chat_request_def opus_request_def)
  have rq: "system_role_messages (messages system_chat_request) =
              [\<lparr>role = ''system'', content = Some ''extra rules'', tool_calls = None,
                tool_call_id = None\<rparr>]"
    by (simp add: system_chat_request_def system_role_messages_def)
  from system_messages_by_prompt
         [OF q, THEN conjunct2, THEN conjunct1, THEN spec, THEN mp, OF sq]
  obtain one where
    "system_role one = ''system''"
    and o: "map part_text (system_content one) = [''be brief'']"
    and fq: "filter (\<lambda>m. message_role m = ''system'') (data_messages q) =
               SystemMsg one # map ChatMsg (system_role_messages (messages system_chat_request))"
    by (elim exE conjE) (rule that)
  from q sq o fq rq have second:
    "\<exists>p built. formatAnthropicToOpenAI Some system_chat_request = Inr p \<and>
        system system_chat_request = Some (SystemString ''be brief'') \<and>
        map part_text (system_content built) = [''be brief''] \<and>
        filter (\<lambda>m. message_role m = ''system'') (data_messages p) =
          [SystemMsg built,
           ChatMsg \<lparr>role = ''system'', content = Some ''extra rules'', tool_calls = None,
                    tool_call_id = None\<rparr>]"
    by - (rule exI [of _ q], rule exI [of _ one], simp)
  obtain u where u: "formatAnthropicToOpenAI Some plain_request = Inr u"
    using format_plain_request by blast
  have sp: "system plain_request = None" by (simp add: plain_request_def)
  have np: "\<forall>m\<in>set (messages plain_request). msg_role m \<noteq> ''system''"
    by (simp add: plain_request_def opus_request_def)
  note instu = system_messages_by_prompt [OF u]
  from instu [THEN conjunct2, THEN conjunct2, THEN conjunct1, THEN mp, OF sp]
       instu [THEN conjunct2, THEN conjunct2, THEN conjunct2, THEN conjunct1, THEN mp, OF np]
  have n: "filter (\<lambda>m. message_role m = ''system'') (data_messages u) = []" by simp
  from u sp n have third:
    "\<exists>p. formatAnthropicToOpenAI Some plain_request = Inr p \<and>
        system plain_request = None \<and>
        filter (\<lambda>m. message_role m = ''system'') (data_messages p) = []"
    by - (rule exI [of _ u], simp)
  from first second third show ?thesis by simp
qed

text \<open>
  Claim C9. For every source message whose content is the empty string, and for every
  tool result part whose content is the empty string, the translator raises a
  structural input error (the model error or the error of an invalid message, never a
  serialisation error and never a payload): the presence tests are falsiness tests.
\<close>

theorem empty_content_rejected:
  assumes "m \<in> set (messages body)"
    and "msg_content m = StringContent [] \<or>
         (\<exists>parts tid. msg_content m = PartsContent parts \<and>
                      ToolResultPart tid (ResultString []) \<in> set parts)"
  shows "formatAnthropicToOpenAI stringify body = Inl ModelRequired \<or>
         (\<exists>i e. formatAnthropicToOpenAI stringify body = Inl (InvalidMessage i e))"
proof -
  from assms(2) have "validateAnthropicMessage m \<noteq> None"
  proof
    assume "msg_content m = StringContent []"
    then show ?thesis by (simp add: validateAnthropicMessage_def)
  next
    assume "\<exists>parts tid. msg_content m = PartsContent parts \<and>
                      ToolResultPart tid (ResultString []) \<in> set parts"
    then obtain parts tid where "msg_content m = PartsContent parts"
      "ToolResultPart tid (ResultString []) \<in> set parts" by blast
    with validate_parts_empty_result [of tid parts 0] show ?thesis
      by (simp add: validateAnthropicMessage_def)
  qed
  from validate_messages_invalid [OF assms(1) this, of 0]
  obtain i e where "validate_messages 0 (messages body) = Some (InvalidMessage i e)" by blast
  then show ?thesis by (simp add: formatAnthropicToOpenAI_def)
qed

theorem empty_content_rejected_witness:
  "\<lparr>msg_role = ''user'', msg_content = StringContent []\<rparr>
     \<in> set (messages (opus_request\<lparr>messages :=
          [\<lparr>msg_role = ''user'', msg_content = StringContent []\<rparr>]\<rparr>)) \<and>
   formatAnthropicToOpenAI Some
     (opus_request\<lparr>messages := [\<lparr>msg_role = ''user'', msg_content = StringContent []\<rparr>]\<rparr>) =
     Inl (InvalidMessage 0 MustHaveContent) \<and>
   ToolResultPart ''t1'' (ResultString []) \<in> set [TextPart ''done'', ToolResultPart ''t1'' (ResultString [])] \<and>
   formatAnthropicToOpenAI Some
     (opus_request\<lparr>messages :=
        [\<lparr>msg_role = ''user'',
          msg_content = PartsContent [TextPart ''done'', ToolResultPart ''t1'' (ResultString [])]\<rparr>]\<rparr>) =
     Inl (InvalidMessage 0 (ToolResultMustHaveContent 1))"
proof -
  let ?m = "\<lparr>msg_role = ''user'', msg_content = StringContent []\<rparr> :: string AnthropicMessage"
  let ?body = "opus_request\<lparr>messages := [?m]\<rparr>"
  have a: "?m \<in> set (messages ?body)" by simp
  have b: "msg_content ?m = StringContent [] \<or>
         (\<exists>parts tid. msg_content ?m = PartsContent parts \<and>
                      ToolResultPart tid (ResultString []) \<in> set parts)"
    by simp
  note r = empty_content_rejected [OF a b, of Some]
  have e1: "formatAnthropicToOpenAI Some ?body = Inl (InvalidMessage 0 MustHaveContent)"
    using r by (simp add: format_eval opus_request_def)
  have e2: "formatAnthropicToOpenAI Some
     (opus_request\<lparr>messages :=
        [\<lparr>msg_role = ''user'',
          msg_content = PartsContent [TextPart ''done'', ToolResultPart ''t1'' (ResultString [])]\<rparr>]\<rparr>) =
     Inl (InvalidMessage 0 (ToolResultMustHaveContent 1))"
    by (simp add: format_eval opus_request_def)
  from a e1 e2 show ?thesis by simp
qed

section \<open>Claims about provider directive resolution\<close>

lemma providerConfigs_truthy: "providerConfigs key = Some v \<Longrightarrow> truthy_json v"
  by (auto simp: providerConfigs_def truthy_json_def split: if_splits)

lemma providerConfigs_inherited_names:
  "key \<in> set Object_prototype_names \<Longrightarrow> providerConfigs key = None"
  by (auto simp: Object_prototype_names_def providerConfigs_def)

lemma truthy_property_None [simp]: "\<not> truthy_property None"
  by (simp add: truthy_property_def)

lemma get_property_truthy:
  "truthy_property (get_property providerConfigs key) = (get_property providerConfigs key \<noteq> None)"
  by (auto simp: get_property_def truthy_property_def providerConfigs_truthy
           split: option.splits)

lemma get_property_empty_key: "get_property providerConfigs [] = None"
  by (simp add: get_property_def providerConfigs_def Object_prototype_names_def)

lemma from_env_lookup:
  "from_env envDefault =
     (case envDefault of None \<Rightarrow> None | Some d \<Rightarrow> get_property providerConfigs d)"
  by (cases envDefault) (auto simp: from_env_def get_property_truthy get_property_empty_key)

lemma resolve_without_body_directive:
  assumes "\<forall>v. incoming_provider body = Some v \<longrightarrow>
             \<not> truthy_json v \<or> ((\<forall>key. v \<noteq> JString key) \<and> \<not> typeof_object v)"
  shows "resolveProviderConfig JSON_parse body headers envDefault =
           from_header JSON_parse headers envDefault"
proof (cases "incoming_provider body")
  case None
  then show ?thesis by (simp add: resolveProviderConfig_def)
next
  case (Some v)
  with assms have "\<not> truthy_json v \<or> ((\<forall>key. v \<noteq> JString key) \<and> \<not> typeof_object v)"
    by simp
  with Some show ?thesis
    by (cases v) (auto simp: resolveProviderConfig_def)
qed

text \<open>
  Claim C8, as stated: the sources are tried in the order body, \<open>X-OpenRouter-Provider\<close>,
  \<open>X-Provider\<close>, default key, and for every named key that is absent from the static
  table the result is no directive. The code does both of the following, whatever
  \<open>JSON.parse\<close> returns. With no \<open>provider\<close> field in the body, a header
  \<open>X-Provider\<close> that names a key absent from the table and a default key that is in
  the table, the resolution falls through and returns a directive: an absent key does
  not always give no directive. With a \<open>provider\<close> string in the body that names a
  key absent from the table, a header that names a preset and a default key that is in
  the table, the result is no directive: the sources that come next in the precedence
  are not always tried.
\<close>

theorem unknown_header_key_counterexample:
  "incoming_provider bare_incoming = None \<and>
   providerConfigs ''no-such-preset'' = None \<and>
   get_property providerConfigs ''no-such-preset'' = None \<and>
   providerConfigs ''minimax/minimax-m2'' \<noteq> None \<and>
   providerConfigs ''z-ai/glm-4.5-air:free'' \<noteq> None \<and>
   (\<forall>JSON_parse.
      resolveProviderConfig JSON_parse bare_incoming
        [''X-Provider'' \<mapsto> ''no-such-preset''] (Some ''z-ai/glm-4.5-air:free'') \<noteq> None) \<and>
   (\<forall>JSON_parse.
      resolveProviderConfig JSON_parse
        (bare_incoming\<lparr>incoming_provider := Some (JString ''no-such-preset'')\<rparr>)
        [''X-Provider'' \<mapsto> ''minimax/minimax-m2''] (Some ''z-ai/glm-4.5-air:free'') = None)"
  by (simp add: resolveProviderConfig_def from_header_def header_value_def from_env_def
        providerConfigs_def bare_incoming_def truthy_json_def get_property_def
        truthy_property_def Object_prototype_names_def split: option.splits)

text \<open>
  Claim C8, amended. Provider directive resolution never fails and follows this
  precedence. A key is looked up by property access on the table of presets: the key of
  a preset gives that preset, a name that every object inherits (\<open>constructor\<close>,
  \<open>toString\<close>, \<open>__proto__\<close> and the others of \<open>Object_prototype_names\<close>) gives the
  inherited value, which is no preset, and every other key gives nothing. (1) A truthy
  \<open>provider\<close> field of the body decides alone when it is an object, which is returned
  as it is, or a string, which is looked up as a key: the result of the lookup is
  returned at once, so a key that gives nothing gives no directive, and neither the
  headers nor the default are consulted. (2) Otherwise one header value is tried, the
  value of \<open>X-OpenRouter-Provider\<close> when it is non-empty and else the value of
  \<open>X-Provider\<close>: first as a key, then as JSON text that parses to an object (or an
  array). (3) When that gives nothing, the default key is looked up, and a default key
  that gives nothing gives no directive.
\<close>

theorem resolveProviderConfig_precedence:
  assumes "r = resolveProviderConfig JSON_parse body headers envDefault"
  shows "(\<forall>v. incoming_provider body = Some v \<and> truthy_json v \<and> typeof_object v \<longrightarrow>
            r = Some (Json v)) \<and>
         (\<forall>key. incoming_provider body = Some (JString key) \<and> key \<noteq> [] \<longrightarrow>
            r = get_property providerConfigs key) \<and>
         ((\<forall>v. incoming_provider body = Some v \<longrightarrow>
               \<not> truthy_json v \<or> ((\<forall>key. v \<noteq> JString key) \<and> \<not> typeof_object v)) \<longrightarrow>
            (\<forall>h found. header_value headers = Some h \<and> h \<noteq> [] \<and>
                get_property providerConfigs h = Some found \<longrightarrow> r = Some found) \<and>
            (\<forall>h parsed. header_value headers = Some h \<and> h \<noteq> [] \<and>
                get_property providerConfigs h = None \<and> JSON_parse h = Some parsed \<and>
                truthy_json parsed \<and> typeof_object parsed \<longrightarrow> r = Some (Json parsed)) \<and>
            ((header_value headers = None \<or> header_value headers = Some [] \<or>
              (\<exists>h. header_value headers = Some h \<and> get_property providerConfigs h = None \<and>
                 (JSON_parse h = None \<or>
                  (\<exists>parsed. JSON_parse h = Some parsed \<and>
                     \<not> (truthy_json parsed \<and> typeof_object parsed))))) \<longrightarrow>
               r = (case envDefault of
                      None \<Rightarrow> None
                    | Some d \<Rightarrow> get_property providerConfigs d))) \<and>
         (\<forall>h. headers ''X-OpenRouter-Provider'' = Some h \<and> h \<noteq> [] \<longrightarrow>
            header_value headers = Some h) \<and>
         ((headers ''X-OpenRouter-Provider'' = None \<or>
           headers ''X-OpenRouter-Provider'' = Some []) \<longrightarrow>
            header_value headers = headers ''X-Provider'') \<and>
         (\<forall>key preset. providerConfigs key = Some preset \<longrightarrow>
            get_property providerConfigs key = Some (Json preset)) \<and>
         (\<forall>key. key \<in> set Object_prototype_names \<longrightarrow>
            get_property providerConfigs key = Some (Inherited key)) \<and>
         (\<forall>key. providerConfigs key = None \<and> key \<notin> set Object_prototype_names \<longrightarrow>
            get_property providerConfigs key = None)"
proof (intro conjI allI impI)
  fix v assume "incoming_provider body = Some v \<and> truthy_json v \<and> typeof_object v"
  then show "r = Some (Json v)"
    unfolding assms by (cases v) (auto simp: resolveProviderConfig_def typeof_object_def)
next
  fix key assume "incoming_provider body = Some (JString key) \<and> key \<noteq> []"
  then show "r = get_property providerConfigs key"
    unfolding assms by (simp add: resolveProviderConfig_def truthy_json_def)
next
  fix h found
  assume "\<forall>v. incoming_provider body = Some v \<longrightarrow>
               \<not> truthy_json v \<or> ((\<forall>key. v \<noteq> JString key) \<and> \<not> typeof_object v)"
    and "header_value headers = Some h \<and> h \<noteq> [] \<and> get_property providerConfigs h = Some found"
  then show "r = Some found"
    unfolding assms using get_property_truthy [of h]
    by (simp add: resolve_without_body_directive from_header_def)
next
  fix h parsed
  assume "\<forall>v. incoming_provider body = Some v \<longrightarrow>
               \<not> truthy_json v \<or> ((\<forall>key. v \<noteq> JString key) \<and> \<not> typeof_object v)"
    and "header_value headers = Some h \<and> h \<noteq> [] \<and> get_property providerConfigs h = None \<and>
         JSON_parse h = Some parsed \<and> truthy_json parsed \<and> typeof_object parsed"
  then show "r = Some (Json parsed)"
    unfolding assms
    by (simp add: resolve_without_body_directive from_header_def get_property_truthy)
next
  assume "\<forall>v. incoming_provider body = Some v \<longrightarrow>
               \<not> truthy_json v \<or> ((\<forall>key. v \<noteq> JString key) \<and> \<not> typeof_object v)"
    and "header_value headers = None \<or> header_value headers = Some [] \<or>
              (\<exists>h. header_value headers = Some h \<and> get_property providerConfigs h = None \<and>
                 (JSON_parse h = None \<or>
                  (\<exists>parsed. JSON_parse h = Some parsed \<and>
                     \<not> (truthy_json parsed \<and> typeof_object parsed))))"
  then show "r = (case envDefault of None \<Rightarrow> None | Some d \<Rightarrow> get_property providerConfigs d)"
    unfolding assms
    by (auto simp: resolve_without_body_directive from_header_def from_env_lookup
          get_property_truthy)
next
  fix h assume "headers ''X-OpenRouter-Provider'' = Some h \<and> h \<noteq> []"
  then show "header_value headers = Some h" by (simp add: header_value_def)
next
  assume "headers ''X-OpenRouter-Provider'' = None \<or> headers ''X-OpenRouter-Provider'' = Some []"
  then show "header_value headers = headers ''X-Provider''"
    by (auto simp: header_value_def)
next
  fix key preset assume "providerConfigs key = Some preset"
  then show "get_property providerConfigs key = Some (Json preset)"
    by (simp add: get_property_def)
next
  fix key assume "key \<in> set Object_prototype_names"
  then show "get_property providerConfigs key = Some (Inherited key)"
    by (simp add: get_property_def providerConfigs_inherited_names)
next
  fix key assume "providerConfigs key = None \<and> key \<notin> set Object_prototype_names"
  then show "get_property providerConfigs key = None"
    by (simp add: get_property_def)
qed

theorem resolveProviderConfig_precedence_witness:
  "resolveProviderConfig (\<lambda>text. None)
     (bare_incoming\<lparr>incoming_provider := Some (JObject [(''only'', JArray [JString ''z-ai''])])\<rparr>)
     [''X-Provider'' \<mapsto> ''minimax/minimax-m2''] (Some ''z-ai/glm-4.5-air:free'') =
     Some (Json (JObject [(''only'', JArray [JString ''z-ai''])])) \<and>
   get_property providerConfigs ''no-such-preset'' = None \<and>
   resolveProviderConfig (\<lambda>text. None)
     (bare_incoming\<lparr>incoming_provider := Some (JString ''no-such-preset'')\<rparr>)
     [''X-Provider'' \<mapsto> ''minimax/minimax-m2''] (Some ''z-ai/glm-4.5-air:free'') = None \<and>
   ''constructor'' \<in> set Object_prototype_names \<and>
   resolveProviderConfig (\<lambda>text. None)
     (bare_incoming\<lparr>incoming_provider := Some (JString ''constructor'')\<rparr>)
     [''X-Provider'' \<mapsto> ''minimax/minimax-m2''] (Some ''z-ai/glm-4.5-air:free'') =
     Some (Inherited ''constructor'') \<and>
   incoming_provider bare_incoming = None \<and>
   header_value [''X-OpenRouter-Provider'' \<mapsto> ''minimax/minimax-m2'',
                 ''X-Provider'' \<mapsto> ''z-ai/glm-4.6:exacto''] = Some ''minimax/minimax-m2'' \<and>
   resolveProviderConfig (\<lambda>text. None) bare_incoming
     [''X-OpenRouter-Provider'' \<mapsto> ''minimax/minimax-m2'',
      ''X-Provider'' \<mapsto> ''z-ai/glm-4.6:exacto''] None =
     get_property providerConfigs ''minimax/minimax-m2'' \<and>
   get_property providerConfigs ''minimax/minimax-m2'' \<noteq> None \<and>
   ''__proto__'' \<in> set Object_prototype_names \<and>
   resolveProviderConfig (\<lambda>text. None) bare_incoming
     [''X-Provider'' \<mapsto> ''__proto__''] (Some ''z-ai/glm-4.5-air:free'') =
     Some (Inherited ''__proto__'') \<and>
   resolveProviderConfig (\<lambda>text. if text = ''[]'' then Some (JArray []) else None) bare_incoming
     [''X-Provider'' \<mapsto> ''[]''] None = Some (Json (JArray [])) \<and>
   header_value [''X-OpenRouter-Provider'' \<mapsto> ''no-such-preset'',
                 ''X-Provider'' \<mapsto> ''z-ai/glm-4.6:exacto''] = Some ''no-such-preset'' \<and>
   resolveProviderConfig (\<lambda>text. None) bare_incoming
     [''X-OpenRouter-Provider'' \<mapsto> ''no-such-preset'',
      ''X-Provider'' \<mapsto> ''z-ai/glm-4.6:exacto''] (Some ''z-ai/glm-4.5-air:free'') =
     get_property providerConfigs ''z-ai/glm-4.5-air:free'' \<and>
   resolveProviderConfig (\<lambda>text. None) bare_incoming Map.empty (Some ''no-such-preset'') = None"
proof -
  let ?obj = "JObject [(''only'', JArray [JString ''z-ai''])]"
  let ?hdr = "[''X-Provider'' \<mapsto> ''minimax/minimax-m2'']"
  let ?two = "[''X-OpenRouter-Provider'' \<mapsto> ''minimax/minimax-m2'',
               ''X-Provider'' \<mapsto> ''z-ai/glm-4.6:exacto'']"
  let ?bad = "[''X-OpenRouter-Provider'' \<mapsto> ''no-such-preset'',
               ''X-Provider'' \<mapsto> ''z-ai/glm-4.6:exacto'']"
  let ?env = "Some ''z-ai/glm-4.5-air:free''"
  have n: "get_property providerConfigs ''no-such-preset'' = None"
    by (simp add: get_property_def providerConfigs_def Object_prototype_names_def)
  have m: "get_property providerConfigs ''minimax/minimax-m2'' \<noteq> None"
    by (simp add: get_property_def providerConfigs_def)
  have c: "''constructor'' \<in> set Object_prototype_names"
    and u: "''__proto__'' \<in> set Object_prototype_names"
    by (simp_all add: Object_prototype_names_def)
  have b: "incoming_provider bare_incoming = None" by (simp add: bare_incoming_def)
  have h1: "header_value [''X-Provider'' \<mapsto> ''__proto__''] = Some ''__proto__''"
    and h2: "header_value ?two = Some ''minimax/minimax-m2''"
    and h3: "header_value ?bad = Some ''no-such-preset''"
    and h4: "header_value [''X-Provider'' \<mapsto> ''[]''] = Some ''[]''"
    and h5: "header_value Map.empty = None"
    by (simp_all add: header_value_def)
  have a1: "resolveProviderConfig (\<lambda>text. None)
              (bare_incoming\<lparr>incoming_provider := Some ?obj\<rparr>) ?hdr ?env = Some (Json ?obj)"
    using resolveProviderConfig_precedence
            [where JSON_parse = "\<lambda>text. None"
               and body = "bare_incoming\<lparr>incoming_provider := Some ?obj\<rparr>"
               and headers = ?hdr and envDefault = ?env, OF refl]
    by (simp add: truthy_json_def typeof_object_def)
  have a2: "resolveProviderConfig (\<lambda>text. None)
              (bare_incoming\<lparr>incoming_provider := Some (JString ''no-such-preset'')\<rparr>) ?hdr ?env =
            None"
    using resolveProviderConfig_precedence
            [where JSON_parse = "\<lambda>text. None"
               and body = "bare_incoming\<lparr>incoming_provider := Some (JString ''no-such-preset'')\<rparr>"
               and headers = ?hdr and envDefault = ?env, OF refl] n
    by simp
  have a2c: "resolveProviderConfig (\<lambda>text. None)
              (bare_incoming\<lparr>incoming_provider := Some (JString ''constructor'')\<rparr>) ?hdr ?env =
            Some (Inherited ''constructor'')"
    using resolveProviderConfig_precedence
            [where JSON_parse = "\<lambda>text. None"
               and body = "bare_incoming\<lparr>incoming_provider := Some (JString ''constructor'')\<rparr>"
               and headers = ?hdr and envDefault = ?env, OF refl] c
    by simp
  have a3: "resolveProviderConfig (\<lambda>text. None) bare_incoming ?two None =
            get_property providerConfigs ''minimax/minimax-m2''"
    using resolveProviderConfig_precedence
            [where JSON_parse = "\<lambda>text. None" and body = bare_incoming
               and headers = ?two and envDefault = None, OF refl]
      b h2 m
    by auto
  have a3p: "resolveProviderConfig (\<lambda>text. None) bare_incoming
               [''X-Provider'' \<mapsto> ''__proto__''] ?env = Some (Inherited ''__proto__'')"
  proof -
    note inst = resolveProviderConfig_precedence
            [where JSON_parse = "\<lambda>text. None" and body = bare_incoming
               and headers = "[''X-Provider'' \<mapsto> ''__proto__'']" and envDefault = ?env, OF refl]
    from inst u have g: "get_property providerConfigs ''__proto__'' = Some (Inherited ''__proto__'')"
      by blast
    from inst b h1 g show ?thesis by simp
  qed
  have a4: "resolveProviderConfig (\<lambda>text. if text = ''[]'' then Some (JArray []) else None)
              bare_incoming [''X-Provider'' \<mapsto> ''[]''] None = Some (Json (JArray []))"
    using resolveProviderConfig_precedence
            [where JSON_parse = "\<lambda>text. if text = ''[]'' then Some (JArray []) else None"
               and body = bare_incoming
               and headers = "[''X-Provider'' \<mapsto> ''[]'']" and envDefault = None, OF refl] b h4
    by (simp add: get_property_def providerConfigs_def Object_prototype_names_def
          truthy_json_def typeof_object_def)
  have a5: "resolveProviderConfig (\<lambda>text. None) bare_incoming ?bad ?env =
            get_property providerConfigs ''z-ai/glm-4.5-air:free''"
    using resolveProviderConfig_precedence
            [where JSON_parse = "\<lambda>text. None" and body = bare_incoming
               and headers = ?bad and envDefault = ?env, OF refl]
      b h3 n
    by simp
  have a6: "resolveProviderConfig (\<lambda>text. None) bare_incoming Map.empty
              (Some ''no-such-preset'') = None"
    using resolveProviderConfig_precedence
            [where JSON_parse = "\<lambda>text. None" and body = bare_incoming
               and headers = Map.empty and envDefault = "Some ''no-such-preset''", OF refl] b h5 n
    by simp
  from a1 a2 a2c a3 a3p a4 a5 a6 n m c u b h2 h3 show ?thesis by simp
qed

end
